theory Spec2Isabelle
  imports Complex_Main "HOL-Library.Word" "HOL-Library.Log_Nat"
begin

section \<open>Python values, bytes and exceptions\<close>

text \<open>
  The development embeds \<^verbatim>\<open>computesdk/protocol.py\<close> (class \<^verbatim>\<open>BinaryProtocol\<close>) and
  \<^verbatim>\<open>computesdk/websocket_client.py\<close> (class \<^verbatim>\<open>WebSocketClient\<close>).

  A Python \<^verbatim>\<open>bytes\<close> object is a list of 8-bit words. A Python \<^verbatim>\<open>str\<close> is a list of
  Unicode code points (natural numbers below \<open>0x110000\<close>; Python strings may hold lone
  surrogates, which the UTF-8 codec refuses). A \<^verbatim>\<open>float\<close> is its IEEE-754 binary64 bit
  pattern, so \<^verbatim>\<open>struct.pack(">d", x)\<close> is the big-endian byte list of that pattern.
  Every exception the code can raise is a value of \<open>error\<close>, and a function that can raise
  returns \<open>error + 'a\<close> with \<open>Inl\<close> for the exception.
\<close>

type_synonym byte = "8 word"
type_synonym bytes = "byte list"
type_synonym str = "nat list"
type_synonym f64 = "64 word"

datatype ws_reason = NotConnected | FailedToSend | FailedToConnect

datatype error =
    StructError
  | IndexError
  | UnicodeDecodeError
  | UnicodeEncodeError
  | OverflowError
  | TypeError
  | HandlerError
  | ConnectionClosed
  | CancelledError
  | BaseError
  | OtherError
  | WebSocketError ws_reason

definition ebind :: "error + 'a \<Rightarrow> ('a \<Rightarrow> error + 'b) \<Rightarrow> error + 'b" where
  "ebind m f = (case m of Inl e \<Rightarrow> Inl e | Inr x \<Rightarrow> f x)"

text \<open>A string literal of the source, as code points.\<close>

definition lit :: "string \<Rightarrow> str" where
  "lit s = map of_char s"

text \<open>Python's \<^verbatim>\<open>data[a:b]\<close> for \<open>0 \<le> a\<close>: it never raises and is cut at the end of \<open>data\<close>.\<close>

definition py_slice :: "'a list \<Rightarrow> nat \<Rightarrow> nat \<Rightarrow> 'a list" where
  "py_slice xs a b = take (b - a) (drop a xs)"

text \<open>Python's \<^verbatim>\<open>data[i]\<close> for \<open>0 \<le> i\<close>: IndexError out of range.\<close>

definition py_index :: "'a list \<Rightarrow> nat \<Rightarrow> error + 'a" where
  "py_index xs i = (if i < length xs then Inr (xs ! i) else Inl IndexError)"

subsection \<open>The \<^verbatim>\<open>struct\<close> module: big-endian integers and doubles\<close>

fun be_nat :: "bytes \<Rightarrow> nat \<Rightarrow> nat" where
  "be_nat [] acc = acc"
| "be_nat (b # bs) acc = be_nat bs (acc * 256 + unat b)"

fun nat_be :: "nat \<Rightarrow> nat \<Rightarrow> bytes" where
  "nat_be 0 n = []"
| "nat_be (Suc k) n = nat_be k (n div 256) @ [of_nat (n mod 256)]"

definition pack_H :: "nat \<Rightarrow> error + bytes" where
  "pack_H n = (if n < 65536 then Inr (nat_be 2 n) else Inl StructError)"

definition pack_I :: "nat \<Rightarrow> error + bytes" where
  "pack_I n = (if n < 4294967296 then Inr (nat_be 4 n) else Inl StructError)"

definition pack_d :: "f64 \<Rightarrow> bytes" where
  "pack_d x = nat_be 8 (unat x)"

definition unpack_H :: "bytes \<Rightarrow> error + nat" where
  "unpack_H bs = (if length bs = 2 then Inr (be_nat bs 0) else Inl StructError)"

definition unpack_I :: "bytes \<Rightarrow> error + nat" where
  "unpack_I bs = (if length bs = 4 then Inr (be_nat bs 0) else Inl StructError)"

definition unpack_d :: "bytes \<Rightarrow> error + f64" where
  "unpack_d bs = (if length bs = 8 then Inr (of_nat (be_nat bs 0)) else Inl StructError)"

subsection \<open>The UTF-8 codec\<close>

text \<open>
  \<^verbatim>\<open>str.encode("utf-8")\<close> raises UnicodeEncodeError on a surrogate code point. Code points
  from \<open>0x110000\<close> on do not occur in a Python \<^verbatim>\<open>str\<close>; the model refuses them too.
\<close>

definition utf8_encode_cp :: "nat \<Rightarrow> error + bytes" where
  "utf8_encode_cp c =
    (if c < 0x80 then Inr [of_nat c]
     else if c < 0x800 then Inr [of_nat (0xC0 + c div 64), of_nat (0x80 + c mod 64)]
     else if c < 0x10000 then
       (if 0xD800 \<le> c \<and> c < 0xE000 then Inl UnicodeEncodeError
        else Inr [of_nat (0xE0 + c div 4096), of_nat (0x80 + c div 64 mod 64),
                  of_nat (0x80 + c mod 64)])
     else if c < 0x110000 then
       Inr [of_nat (0xF0 + c div 262144), of_nat (0x80 + c div 4096 mod 64),
            of_nat (0x80 + c div 64 mod 64), of_nat (0x80 + c mod 64)]
     else Inl UnicodeEncodeError)"

fun utf8_encode :: "str \<Rightarrow> error + bytes" where
  "utf8_encode [] = Inr []"
| "utf8_encode (c # cs) =
     ebind (utf8_encode_cp c) (\<lambda>b. ebind (utf8_encode cs) (\<lambda>bs. Inr (b @ bs)))"

text \<open>
  One step of CPython's UTF-8 decoder on a non-empty input: the code point read (or \<open>None\<close>
  for an ill-formed sequence) and the number of bytes the step covers. For an ill-formed
  sequence that number is the length of its maximal subpart, which
  \<^verbatim>\<open>errors="replace"\<close> turns into one U+FFFD.
\<close>

definition is_cont :: "nat \<Rightarrow> bool" where
  "is_cont b = (0x80 \<le> b \<and> b < 0xC0)"

definition utf8_step :: "nat list \<Rightarrow> nat option \<times> nat" where
  "utf8_step s =
    (let n = length s; c0 = s ! 0 in
     if c0 < 0x80 then (Some c0, 1)
     else if c0 < 0xC2 then (None, 1)
     else if c0 < 0xE0 then
       (if n < 2 then (None, n)
        else if \<not> is_cont (s ! 1) then (None, 1)
        else (Some ((c0 - 0xC0) * 64 + (s ! 1 - 0x80)), 2))
     else if c0 < 0xF0 then
       (if n < 2 then (None, n)
        else if \<not> is_cont (s ! 1) \<or> (c0 = 0xE0 \<and> s ! 1 < 0xA0) \<or> (c0 = 0xED \<and> 0xA0 \<le> s ! 1)
          then (None, 1)
        else if n < 3 then (None, n)
        else if \<not> is_cont (s ! 2) then (None, 2)
        else (Some ((c0 - 0xE0) * 4096 + (s ! 1 - 0x80) * 64 + (s ! 2 - 0x80)), 3))
     else if c0 < 0xF5 then
       (if n < 2 then (None, n)
        else if \<not> is_cont (s ! 1) \<or> (c0 = 0xF0 \<and> s ! 1 < 0x90) \<or> (c0 = 0xF4 \<and> 0x90 \<le> s ! 1)
          then (None, 1)
        else if n < 3 then (None, n)
        else if \<not> is_cont (s ! 2) then (None, 2)
        else if n < 4 then (None, n)
        else if \<not> is_cont (s ! 3) then (None, 3)
        else (Some ((c0 - 0xF0) * 262144 + (s ! 1 - 0x80) * 4096 + (s ! 2 - 0x80) * 64
                    + (s ! 3 - 0x80)), 4))
     else (None, 1))"

text \<open>
  \<^verbatim>\<open>bytes.decode("utf-8")\<close> (\<open>replace = False\<close>: the first ill-formed sequence raises
  UnicodeDecodeError) and \<^verbatim>\<open>bytes.decode("utf-8", errors="replace")\<close> (\<open>replace = True\<close>).
\<close>

function utf8_decode :: "bool \<Rightarrow> bytes \<Rightarrow> error + str" where
  "utf8_decode replace bs =
    (if bs = [] then Inr []
     else case utf8_step (map unat bs) of
       (Some c, k) \<Rightarrow> ebind (utf8_decode replace (drop k bs)) (\<lambda>cs. Inr (c # cs))
     | (None, k) \<Rightarrow>
         if replace then ebind (utf8_decode replace (drop k bs)) (\<lambda>cs. Inr (0xFFFD # cs))
         else Inl UnicodeDecodeError)"
  by pat_completeness auto
termination
  apply (relation "measure (\<lambda>(r, bs). length bs)")
    apply simp
   apply (auto simp: utf8_step_def Let_def neq_Nil_conv split: if_splits)
  done

declare utf8_decode.simps [simp del]

section \<open>The binary protocol\<close>

subsection \<open>Messages and payload values\<close>

text \<open>
  A payload value is any Python object. The model keeps the classes that
  \<^verbatim>\<open>_encode_data\<close> tells apart. A nested dict or list is represented by what
  \<^verbatim>\<open>json.dumps\<close> returns for it (its text, or the exception it raises), and an object of
  any other class by what \<^verbatim>\<open>str()\<close> returns for it.
\<close>

datatype pyval =
    PStr str
  | PBool bool
  | PInt int
  | PFloat f64
  | PBytes bytes
  | PDict "error + str"
  | PList "error + str"
  | PNone
  | PObject str

text \<open>
  \<^verbatim>\<open>isinstance\<close> as the source uses it. \<^verbatim>\<open>bool\<close> is a subclass of \<^verbatim>\<open>int\<close>, so
  \<^verbatim>\<open>isinstance(True, (int, float))\<close> holds.
\<close>

fun isinstance_str :: "pyval \<Rightarrow> bool" where
  "isinstance_str (PStr s) = True"
| "isinstance_str v = False"

fun isinstance_bool :: "pyval \<Rightarrow> bool" where
  "isinstance_bool (PBool b) = True"
| "isinstance_bool v = False"

fun isinstance_int_float :: "pyval \<Rightarrow> bool" where
  "isinstance_int_float (PBool b) = True"
| "isinstance_int_float (PInt n) = True"
| "isinstance_int_float (PFloat x) = True"
| "isinstance_int_float v = False"

fun isinstance_bytes :: "pyval \<Rightarrow> bool" where
  "isinstance_bytes (PBytes b) = True"
| "isinstance_bytes v = False"

fun isinstance_dict :: "pyval \<Rightarrow> bool" where
  "isinstance_dict (PDict j) = True"
| "isinstance_dict v = False"

fun isinstance_list :: "pyval \<Rightarrow> bool" where
  "isinstance_list (PList j) = True"
| "isinstance_list v = False"

text \<open>
  \<^verbatim>\<open>float(value)\<close> for the values that pass \<^verbatim>\<open>isinstance(value, (int, float))\<close>: an
  \<^verbatim>\<open>int\<close> is rounded to the nearest double, ties to even, and raises OverflowError when
  it is too large; \<^verbatim>\<open>True\<close> and \<^verbatim>\<open>False\<close> are 1 and 0.
\<close>

definition float_of_int :: "int \<Rightarrow> error + f64" where
  "float_of_int n =
    (if n = 0 then Inr 0
     else
       let m = nat \<bar>n\<bar>;
           e = floorlog 2 m - 1;
           sh = e - 52;
           q0 = (if e \<le> 52 then m * 2 ^ (52 - e) else m div 2 ^ sh);
           r = (if e \<le> 52 then 0 else m mod 2 ^ sh);
           up = (e > 52 \<and> (r > 2 ^ (sh - 1) \<or> (r = 2 ^ (sh - 1) \<and> odd q0)));
           q1 = (if up then q0 + 1 else q0);
           e1 = (if q1 = 2 ^ 53 then e + 1 else e);
           q = (if q1 = 2 ^ 53 then 2 ^ 52 else q1)
       in if 1024 \<le> e1 then Inl OverflowError
          else Inr (of_nat ((if n < 0 then 2 ^ 63 else 0) + (e1 + 1023) * 2 ^ 52 + (q - 2 ^ 52))))"

fun to_float :: "pyval \<Rightarrow> error + f64" where
  "to_float (PFloat x) = Inr x"
| "to_float (PInt n) = float_of_int n"
| "to_float (PBool b) = float_of_int (if b then 1 else 0)"
| "to_float v = Inl TypeError"

text \<open>\<^verbatim>\<open>json.dumps(value)\<close> and \<^verbatim>\<open>str(value)\<close>, read off the representation.\<close>

fun json_dumps :: "pyval \<Rightarrow> error + str" where
  "json_dumps (PDict j) = j"
| "json_dumps (PList j) = j"
| "json_dumps v = Inl TypeError"

fun py_str :: "pyval \<Rightarrow> str" where
  "py_str (PObject s) = s"
| "py_str v = []"

text \<open>
  A dict with string keys, in insertion order: an association list whose keys are distinct.
  \<^verbatim>\<open>result[key] = v\<close> replaces the value of a key that is present, in place, and appends
  a new key.
\<close>

type_synonym payload = "(str \<times> pyval) list"

fun dict_set :: "payload \<Rightarrow> str \<Rightarrow> pyval \<Rightarrow> payload" where
  "dict_set [] k v = [(k, v)]"
| "dict_set ((k', v') # d) k v = (if k' = k then (k, v) # d else (k', v') # dict_set d k v)"

text \<open>
  A message is a dict read with \<^verbatim>\<open>message.get("type", "data")\<close>,
  \<^verbatim>\<open>message.get("channel", "")\<close> and \<^verbatim>\<open>message.get("data", {})\<close>: each of the three keys
  may be absent.
\<close>

record message =
  mtype :: "str option"
  mchannel :: "str option"
  mdata :: "payload option"

definition get_default :: "'a option \<Rightarrow> 'a \<Rightarrow> 'a" where
  "get_default field dflt = (case field of None \<Rightarrow> dflt | Some x \<Rightarrow> x)"

subsection \<open>Constants\<close>

definition MSG_SUBSCRIBE :: byte where "MSG_SUBSCRIBE = 0x01"
definition MSG_UNSUBSCRIBE :: byte where "MSG_UNSUBSCRIBE = 0x02"
definition MSG_DATA :: byte where "MSG_DATA = 0x03"
definition MSG_ERROR :: byte where "MSG_ERROR = 0x04"
definition MSG_CONNECTED :: byte where "MSG_CONNECTED = 0x05"

definition VAL_STRING :: byte where "VAL_STRING = 0x01"
definition VAL_NUMBER :: byte where "VAL_NUMBER = 0x02"
definition VAL_BOOLEAN :: byte where "VAL_BOOLEAN = 0x03"
definition VAL_BYTES :: byte where "VAL_BYTES = 0x04"

definition TYPE_TO_BYTE :: "str \<Rightarrow> byte option" where
  "TYPE_TO_BYTE t =
    (if t = lit ''subscribe'' then Some MSG_SUBSCRIBE
     else if t = lit ''unsubscribe'' then Some MSG_UNSUBSCRIBE
     else if t = lit ''data'' then Some MSG_DATA
     else if t = lit ''error'' then Some MSG_ERROR
     else if t = lit ''connected'' then Some MSG_CONNECTED
     else None)"

subsection \<open>Encoding\<close>

fun str_of :: "pyval \<Rightarrow> str" where
  "str_of (PStr s) = s"
| "str_of v = []"

fun bool_of :: "pyval \<Rightarrow> bool" where
  "bool_of (PBool b) = b"
| "bool_of v = True"

fun bytes_of :: "pyval \<Rightarrow> bytes" where
  "bytes_of (PBytes b) = b"
| "bytes_of v = []"

text \<open>
  The \<^verbatim>\<open>if\<close>/\<^verbatim>\<open>elif\<close> chain of \<^verbatim>\<open>_encode_data\<close>, in the order of the source: what one
  value adds to \<^verbatim>\<open>result\<close> after its key.
\<close>

definition encode_value :: "pyval \<Rightarrow> error + bytes" where
  "encode_value v =
    (if isinstance_str v then
       ebind (utf8_encode (str_of v)) (\<lambda>val_bytes.
       ebind (pack_I (length val_bytes)) (\<lambda>val_len.
       Inr ([VAL_STRING] @ val_len @ val_bytes)))
     else if isinstance_bool v then
       ebind (pack_I 1) (\<lambda>val_len.
       Inr ([VAL_BOOLEAN] @ val_len @ [if bool_of v then 0x01 else 0x00]))
     else if isinstance_int_float v then
       ebind (pack_I 8) (\<lambda>val_len.
       ebind (to_float v) (\<lambda>x.
       Inr ([VAL_NUMBER] @ val_len @ pack_d x)))
     else if isinstance_bytes v then
       ebind (pack_I (length (bytes_of v))) (\<lambda>val_len.
       Inr ([VAL_BYTES] @ val_len @ bytes_of v))
     else if isinstance_dict v then
       ebind (json_dumps v) (\<lambda>text.
       ebind (utf8_encode text) (\<lambda>val_bytes.
       ebind (pack_I (length val_bytes)) (\<lambda>val_len.
       Inr ([VAL_STRING] @ val_len @ val_bytes))))
     else if isinstance_list v then
       ebind (json_dumps v) (\<lambda>text.
       ebind (utf8_encode text) (\<lambda>val_bytes.
       ebind (pack_I (length val_bytes)) (\<lambda>val_len.
       Inr ([VAL_STRING] @ val_len @ val_bytes))))
     else if v = PNone then
       ebind (pack_I 0) (\<lambda>val_len.
       Inr ([VAL_STRING] @ val_len))
     else
       ebind (utf8_encode (py_str v)) (\<lambda>val_bytes.
       ebind (pack_I (length val_bytes)) (\<lambda>val_len.
       Inr ([VAL_STRING] @ val_len @ val_bytes))))"

text \<open>The loop \<^verbatim>\<open>for key, value in data.items()\<close>, with \<^verbatim>\<open>result\<close> as accumulator.\<close>

fun encode_fields :: "payload \<Rightarrow> bytes \<Rightarrow> error + bytes" where
  "encode_fields [] result = Inr result"
| "encode_fields ((key, v) # rest) result =
     ebind (utf8_encode key) (\<lambda>key_bytes.
     ebind (pack_H (length key_bytes)) (\<lambda>key_len.
     ebind (encode_value v) (\<lambda>val.
     encode_fields rest (result @ key_len @ key_bytes @ val))))"

text \<open>\<^verbatim>\<open>BinaryProtocol._encode_data\<close>.\<close>

definition encode_data :: "payload \<Rightarrow> error + bytes" where
  "encode_data d =
    (if d = [] then pack_H 0
     else ebind (pack_H (length d)) (\<lambda>result. encode_fields d result))"

text \<open>\<^verbatim>\<open>BinaryProtocol.encode\<close>.\<close>

definition encode :: "message \<Rightarrow> error + bytes" where
  "encode message =
    (let msg_type = get_default (mtype message) (lit ''data'');
         channel = get_default (mchannel message) [];
         d = get_default (mdata message) [];
         type_byte = get_default (TYPE_TO_BYTE msg_type) MSG_DATA
     in
       ebind (utf8_encode channel) (\<lambda>channel_bytes.
       ebind (pack_H (length channel_bytes)) (\<lambda>channel_len.
       ebind (utf8_encode msg_type) (\<lambda>msg_type_bytes.
       ebind (pack_H (length msg_type_bytes)) (\<lambda>msg_type_len.
       ebind (encode_data d) (\<lambda>data_bytes.
       ebind (pack_I (length data_bytes)) (\<lambda>data_len.
       Inr ([type_byte] @ channel_len @ channel_bytes @ msg_type_len @ msg_type_bytes
            @ data_len @ data_bytes))))))))"

subsection \<open>Decoding\<close>

text \<open>The value of one field: the \<^verbatim>\<open>if\<close>/\<^verbatim>\<open>elif\<close> chain on \<^verbatim>\<open>val_type\<close>.\<close>

definition decode_value :: "bytes \<Rightarrow> byte \<Rightarrow> nat \<Rightarrow> nat \<Rightarrow> error + pyval" where
  "decode_value dat val_type offset val_len =
    (if val_type = VAL_STRING then
       ebind (utf8_decode False (py_slice dat offset (offset + val_len))) (\<lambda>s. Inr (PStr s))
     else if val_type = VAL_NUMBER then
       (if val_len \<ge> 8 then
          ebind (unpack_d (py_slice dat offset (offset + 8))) (\<lambda>x. Inr (PFloat x))
        else Inr (PFloat 0))
     else if val_type = VAL_BOOLEAN then
       (if val_len \<ge> 1 then ebind (py_index dat offset) (\<lambda>b. Inr (PBool (b = 0x01)))
        else Inr (PBool False))
     else if val_type = VAL_BYTES then
       Inr (PBytes (py_slice dat offset (offset + val_len)))
     else
       ebind (utf8_decode True (py_slice dat offset (offset + val_len))) (\<lambda>s. Inr (PStr s)))"

text \<open>
  The loop \<^verbatim>\<open>for _ in range(num_fields)\<close> of \<^verbatim>\<open>_decode_data\<close>: the first argument
  counts the iterations left, every \<^verbatim>\<open>break\<close> returns \<^verbatim>\<open>result\<close>.
\<close>

fun decode_fields :: "bytes \<Rightarrow> nat \<Rightarrow> nat \<Rightarrow> payload \<Rightarrow> error + payload" where
  "decode_fields dat 0 offset result = Inr result"
| "decode_fields dat (Suc n) offset result =
    (if offset + 2 > length dat then Inr result
     else
       ebind (unpack_H (py_slice dat offset (offset + 2))) (\<lambda>key_len.
       if offset + 2 + key_len > length dat then Inr result
       else
         ebind (utf8_decode False (py_slice dat (offset + 2) (offset + 2 + key_len))) (\<lambda>key.
         if offset + 2 + key_len + 1 > length dat then Inr result
         else
           ebind (py_index dat (offset + 2 + key_len)) (\<lambda>val_type.
           if offset + 2 + key_len + 1 + 4 > length dat then Inr result
           else
             ebind (unpack_I (py_slice dat (offset + 2 + key_len + 1)
                                        (offset + 2 + key_len + 1 + 4))) (\<lambda>val_len.
             if offset + 2 + key_len + 1 + 4 + val_len > length dat then Inr result
             else
               ebind (decode_value dat val_type (offset + 2 + key_len + 1 + 4) val_len) (\<lambda>v.
               decode_fields dat n (offset + 2 + key_len + 1 + 4 + val_len)
                 (dict_set result key v)))))))"

text \<open>\<^verbatim>\<open>BinaryProtocol._decode_data\<close>.\<close>

definition decode_data :: "bytes \<Rightarrow> error + payload" where
  "decode_data dat =
    (if length dat < 2 then Inr []
     else ebind (unpack_H (py_slice dat 0 2)) (\<lambda>num_fields. decode_fields dat num_fields 2 []))"

text \<open>
  \<^verbatim>\<open>BinaryProtocol.decode\<close>. The dict \<^verbatim>\<open>{"type": "error", "channel": c, "data": {"error": text}}\<close>
  that four of its returns build is \<open>error_message c text\<close>.
\<close>

definition error_message :: "str \<Rightarrow> string \<Rightarrow> message" where
  "error_message c text =
    \<lparr>mtype = Some (lit ''error''), mchannel = Some c,
     mdata = Some [(lit ''error'', PStr (lit text))]\<rparr>"

definition decode :: "bytes \<Rightarrow> error + message" where
  "decode dat =
    (if length dat < 1 then Inr (error_message [] ''Empty message'')
     else
       ebind (py_index dat 0) (\<lambda>type_byte.
       if 1 + 2 > length dat then Inr (error_message [] ''Invalid message'')
       else
         ebind (unpack_H (py_slice dat 1 (1 + 2))) (\<lambda>channel_len.
         if 3 + channel_len > length dat then Inr (error_message [] ''Invalid message'')
         else
           ebind (utf8_decode False (py_slice dat 3 (3 + channel_len))) (\<lambda>channel.
           if 3 + channel_len + 2 > length dat
           then Inr (error_message channel ''Invalid message'')
           else
             ebind (unpack_H (py_slice dat (3 + channel_len) (3 + channel_len + 2)))
               (\<lambda>msg_type_len.
             if 3 + channel_len + 2 + msg_type_len > length dat
             then Inr (error_message channel ''Invalid message'')
             else
               ebind (utf8_decode False (py_slice dat (3 + channel_len + 2)
                                           (3 + channel_len + 2 + msg_type_len))) (\<lambda>msg_type.
               if 3 + channel_len + 2 + msg_type_len + 4 > length dat
               then Inr \<lparr>mtype = Some msg_type, mchannel = Some channel, mdata = Some []\<rparr>
               else
                 ebind (unpack_I (py_slice dat (3 + channel_len + 2 + msg_type_len)
                                    (3 + channel_len + 2 + msg_type_len + 4))) (\<lambda>data_len.
                 if 3 + channel_len + 2 + msg_type_len + 4 + data_len > length dat
                 then Inr \<lparr>mtype = Some msg_type, mchannel = Some channel, mdata = Some []\<rparr>
                 else
                   ebind (decode_data (py_slice dat (3 + channel_len + 2 + msg_type_len + 4)
                            (3 + channel_len + 2 + msg_type_len + 4 + data_len))) (\<lambda>payload.
                   Inr \<lparr>mtype = Some msg_type, mchannel = Some channel,
                        mdata = Some payload\<rparr>))))))))"

subsection \<open>Sizes on the wire\<close>

text \<open>
  The inputs the round-trip property is about: strings that have a UTF-8 encoding shorter
  than a bound, and payload values that are text, boolean, float or bytes and fit the
  32-bit length prefix.
\<close>

definition fits :: "nat \<Rightarrow> str \<Rightarrow> bool" where
  "fits bound s = (case utf8_encode s of Inl e \<Rightarrow> False | Inr b \<Rightarrow> length b < bound)"

definition utf8_size :: "str \<Rightarrow> nat" where
  "utf8_size s = (case utf8_encode s of Inl e \<Rightarrow> 0 | Inr b \<Rightarrow> length b)"

fun value_fits :: "pyval \<Rightarrow> bool" where
  "value_fits (PStr s) = fits 4294967296 s"
| "value_fits (PBool b) = True"
| "value_fits (PFloat x) = True"
| "value_fits (PBytes b) = (length b < 4294967296)"
| "value_fits v = False"

fun value_size :: "pyval \<Rightarrow> nat" where
  "value_size (PStr s) = utf8_size s"
| "value_size (PBool b) = 1"
| "value_size (PFloat x) = 8"
| "value_size (PBytes b) = length b"
| "value_size v = 0"

fun field_fits :: "str \<times> pyval \<Rightarrow> bool" where
  "field_fits (k, v) = (fits 65536 k \<and> value_fits v)"

fun field_size :: "str \<times> pyval \<Rightarrow> nat" where
  "field_size (k, v) = 2 + utf8_size k + 1 + 4 + value_size v"

definition payload_size :: "payload \<Rightarrow> nat" where
  "payload_size d = 2 + sum_list (map field_size d)"

text \<open>A payload of 65536 boolean fields with the keys \<^verbatim>\<open>""\<close>, \<^verbatim>\<open>"a"\<close>, \<^verbatim>\<open>"aa"\<close>, ...\<close>

definition big_field :: "nat \<Rightarrow> str \<times> pyval" where
  "big_field i = (replicate i 97, PBool True)"

definition big_payload :: payload where
  "big_payload = map big_field [0..<65536]"

definition big_message :: message where
  "big_message = \<lparr>mtype = Some (lit ''data''), mchannel = Some (lit ''c''),
     mdata = Some big_payload\<rparr>"

text \<open>
  The message \<^verbatim>\<open>{"type": "data", "channel": "terminal:1", "data": {"output": "hi\n",
  "exit_code": 0.0, "done": True}}\<close>.
\<close>

definition example_payload :: payload where
  "example_payload =
    [(lit ''output'', PStr [104, 105, 10]), (lit ''exit_code'', PFloat 0),
     (lit ''done'', PBool True)]"

definition example_message :: message where
  "example_message = \<lparr>mtype = Some (lit ''data''), mchannel = Some (lit ''terminal:1''),
     mdata = Some example_payload\<rparr>"

section \<open>The WebSocket client\<close>

subsection \<open>State and environment\<close>

text \<open>
  What \<^verbatim>\<open>self._ws.send\<close> is given: the bytes of \<^verbatim>\<open>encode\<close> under the binary protocol,
  the text of \<^verbatim>\<open>json.dumps(message)\<close> otherwise. The JSON text is represented by the
  message it denotes.
\<close>

datatype wire = Binary bytes | Text message

text \<open>
  A handler is an async callable; the model gives it a name and its outcome on each
  message: it returns, it raises an exception of class \<^verbatim>\<open>Exception\<close>, it raises
  \<^verbatim>\<open>asyncio.CancelledError\<close>, or it raises another exception that is not of class
  \<^verbatim>\<open>Exception\<close> (\<^verbatim>\<open>KeyboardInterrupt\<close>, \<^verbatim>\<open>SystemExit\<close>).
\<close>

datatype hresult = Returns | Raises | RaisesCancelled | RaisesBase

record handler =
  hname :: string
  hrun :: "message \<Rightarrow> hresult"

text \<open>
  What \<^verbatim>\<open>await self._ws.recv()\<close> does: it returns bytes or text, or raises
  \<^verbatim>\<open>ConnectionClosed\<close>, \<^verbatim>\<open>CancelledError\<close> or another exception. Data carries what
  \<^verbatim>\<open>json.loads\<close> followed by \<^verbatim>\<open>data.get\<close> gives on it: the dict, or \<open>Inl\<close> when one of
  the two raises.
\<close>

datatype inbound =
    RecvBytes bytes "error + message"
  | RecvText "error + message"
  | RecvClosed
  | RecvCancelled
  | RecvError

text \<open>The effects of the client, in the order they happen.\<close>

datatype event =
    Sleep real
  | Send wire
  | Close
  | Invoke string message hresult

text \<open>
  The attributes of \<^verbatim>\<open>WebSocketClient\<close>, and its environment. \<open>ws = None\<close> is
  \<^verbatim>\<open>self._ws is None\<close>, \<open>ws = Some b\<close> a socket whose \<^verbatim>\<open>open\<close> property is \<open>b\<close>. The set
  \<^verbatim>\<open>_subscriptions\<close> is a list without duplicates, iterated in list order (Python fixes
  no order). Delays are real numbers: doubling and \<^verbatim>\<open>min\<close> are exact on floats.

  The environment is scripted: \<open>connect_script\<close> holds the outcomes of the next calls of
  \<^verbatim>\<open>websockets.connect\<close> (\<open>True\<close>: an open socket, \<open>False\<close>: it raises), \<open>send_script\<close>
  those of the next calls of \<^verbatim>\<open>self._ws.send\<close>, and after the end of a script every call
  succeeds; \<open>inbox\<close> holds what the next calls of \<^verbatim>\<open>recv\<close> do, and after its end
  \<^verbatim>\<open>recv\<close> does not return. \<open>trace\<close> records the effects so far.
\<close>

record client =
  auto_reconnect :: bool
  reconnect_delay :: real
  max_reconnect_delay :: real
  encoder :: bool
  ws :: "bool option"
  running :: bool
  handlers :: "str \<Rightarrow> handler option"
  subscriptions :: "str list"
  current_reconnect_delay :: real
  connect_script :: "bool list"
  send_script :: "bool list"
  inbox :: "inbound list"
  trace :: "event list"

text \<open>\<^verbatim>\<open>WebSocketClient.__init__\<close>, for \<^verbatim>\<open>protocol == "binary"\<close> or not.\<close>

definition init :: "bool \<Rightarrow> bool \<Rightarrow> real \<Rightarrow> real \<Rightarrow> client" where
  "init binary auto_rc delay max_delay =
    \<lparr>auto_reconnect = auto_rc, reconnect_delay = delay, max_reconnect_delay = max_delay,
     encoder = binary, ws = None, running = False, handlers = (\<lambda>t. None),
     subscriptions = [], current_reconnect_delay = delay,
     connect_script = [], send_script = [], inbox = [], trace = []\<rparr>"

text \<open>The property \<^verbatim>\<open>connected\<close>: \<^verbatim>\<open>self._ws is not None and self._ws.open\<close>.\<close>

definition connected :: "client \<Rightarrow> bool" where
  "connected s = (ws s \<noteq> None \<and> ws s = Some True)"

text \<open>The next outcome of a script.\<close>

fun next_outcome :: "bool list \<Rightarrow> bool \<times> bool list" where
  "next_outcome [] = (True, [])"
| "next_outcome (b # bs) = (b, bs)"

subsection \<open>Sending\<close>

fun json_serializable :: "pyval \<Rightarrow> bool" where
  "json_serializable (PBytes b) = False"
| "json_serializable (PObject s) = False"
| "json_serializable (PDict j) = (\<not> isl j)"
| "json_serializable (PList j) = (\<not> isl j)"
| "json_serializable v = True"

text \<open>\<^verbatim>\<open>self._encoder.encode(message)\<close> if there is an encoder, else \<^verbatim>\<open>json.dumps(message)\<close>.\<close>

definition wire_of :: "client \<Rightarrow> message \<Rightarrow> error + wire" where
  "wire_of s message =
    (if encoder s then ebind (encode message) (\<lambda>b. Inr (Binary b))
     else if list_all (\<lambda>f. json_serializable (snd f)) (get_default (mdata message) [])
       then Inr (Text message)
     else Inl TypeError)"

text \<open>\<^verbatim>\<open>WebSocketClient._send_message\<close>: the result and the new state.\<close>

definition send_message :: "message \<Rightarrow> client \<Rightarrow> (error + unit) \<times> client" where
  "send_message message s =
    (if ws s = None \<or> ws s \<noteq> Some True then (Inl (WebSocketError NotConnected), s)
     else
       case wire_of s message of
         Inl e \<Rightarrow> (Inl (WebSocketError FailedToSend), s)
       | Inr w \<Rightarrow>
           (case next_outcome (send_script s) of
              (True, rest) \<Rightarrow> (Inr (), s\<lparr>send_script := rest, trace := trace s @ [Send w]\<rparr>)
            | (False, rest) \<Rightarrow> (Inl (WebSocketError FailedToSend), s\<lparr>send_script := rest\<rparr>)))"

definition subscribe_message :: "str \<Rightarrow> message" where
  "subscribe_message c = \<lparr>mtype = Some (lit ''subscribe''), mchannel = Some c, mdata = None\<rparr>"

definition unsubscribe_message :: "str \<Rightarrow> message" where
  "unsubscribe_message c =
    \<lparr>mtype = Some (lit ''unsubscribe''), mchannel = Some c, mdata = None\<rparr>"

definition send_subscribe :: "str \<Rightarrow> client \<Rightarrow> (error + unit) \<times> client" where
  "send_subscribe c s = send_message (subscribe_message c) s"

definition send_unsubscribe :: "str \<Rightarrow> client \<Rightarrow> (error + unit) \<times> client" where
  "send_unsubscribe c s = send_message (unsubscribe_message c) s"

text \<open>
  The loop \<^verbatim>\<open>for channel in ...: await self._send_subscribe(channel)\<close>: the first send
  that raises ends it.
\<close>

fun send_subscribes :: "str list \<Rightarrow> client \<Rightarrow> (error + unit) \<times> client" where
  "send_subscribes [] s = (Inr (), s)"
| "send_subscribes (c # cs) s =
    (case send_subscribe c s of
       (Inl e, s') \<Rightarrow> (Inl e, s')
     | (Inr u, s') \<Rightarrow> send_subscribes cs s')"

subsection \<open>Subscriptions and handlers\<close>

text \<open>\<^verbatim>\<open>WebSocketClient.subscribe\<close> and \<^verbatim>\<open>unsubscribe\<close>.\<close>

definition subscribe :: "str \<Rightarrow> client \<Rightarrow> (error + unit) \<times> client" where
  "subscribe c s =
    (let s1 = s\<lparr>subscriptions := List.insert c (subscriptions s)\<rparr>
     in if connected s1 then send_subscribe c s1 else (Inr (), s1))"

definition unsubscribe :: "str \<Rightarrow> client \<Rightarrow> (error + unit) \<times> client" where
  "unsubscribe c s =
    (let s1 = s\<lparr>subscriptions := removeAll c (subscriptions s)\<rparr>
     in if connected s1 then send_unsubscribe c s1 else (Inr (), s1))"

text \<open>\<^verbatim>\<open>WebSocketClient.on\<close> and \<^verbatim>\<open>off\<close>.\<close>

definition on :: "str \<Rightarrow> handler \<Rightarrow> client \<Rightarrow> client" where
  "on event_type h s = s\<lparr>handlers := (handlers s)(event_type \<mapsto> h)\<rparr>"

definition off :: "str \<Rightarrow> client \<Rightarrow> client" where
  "off event_type s = s\<lparr>handlers := (handlers s)(event_type := None)\<rparr>"

subsection \<open>Connecting and reconnecting\<close>

text \<open>
  \<^verbatim>\<open>WebSocketClient.connect\<close>. Every exception inside its \<^verbatim>\<open>try\<close> becomes
  \<^verbatim>\<open>WebSocketError("Failed to connect: ...")\<close>. The receive task it creates runs
  \<open>receive_loop\<close> below; the model runs the two one after the other.
\<close>

definition connect :: "client \<Rightarrow> (error + unit) \<times> client" where
  "connect s =
    (case next_outcome (connect_script s) of
       (False, rest) \<Rightarrow> (Inl (WebSocketError FailedToConnect), s\<lparr>connect_script := rest\<rparr>)
     | (True, rest) \<Rightarrow>
         (let s1 = s\<lparr>connect_script := rest, ws := Some True, running := True,
                      current_reconnect_delay := reconnect_delay s\<rparr>
          in case send_subscribes (subscriptions s1) s1 of
               (Inl e, s2) \<Rightarrow> (Inl (WebSocketError FailedToConnect), s2)
             | (Inr u, s2) \<Rightarrow> (Inr (), s2)))"

text \<open>
  \<^verbatim>\<open>WebSocketClient._reconnect\<close>: close the old socket, wait, double the delay up to the
  maximum, try to connect; on success reset the delay and subscribe again. It never raises.
\<close>

definition reconnect :: "client \<Rightarrow> client" where
  "reconnect s =
    (let s1 = (if ws s \<noteq> None then s\<lparr>ws := None, trace := trace s @ [Close]\<rparr> else s);
         s2 = s1\<lparr>trace := trace s1 @ [Sleep (current_reconnect_delay s1)]\<rparr>;
         s3 = s2\<lparr>current_reconnect_delay :=
                   min (current_reconnect_delay s2 * 2) (max_reconnect_delay s2)\<rparr>
     in case next_outcome (connect_script s3) of
          (False, rest) \<Rightarrow> s3\<lparr>connect_script := rest\<rparr>
        | (True, rest) \<Rightarrow>
            (let s4 = s3\<lparr>connect_script := rest, ws := Some True,
                         current_reconnect_delay := reconnect_delay s3\<rparr>
             in snd (send_subscribes (subscriptions s4) s4)))"

subsection \<open>The receive loop\<close>

text \<open>
  What \<^verbatim>\<open>except Exception\<close> catches: every exception of the model but
  \<^verbatim>\<open>asyncio.CancelledError\<close> and the other exceptions that derive from
  \<^verbatim>\<open>BaseException\<close> only.
\<close>

fun is_exception :: "error \<Rightarrow> bool" where
  "is_exception CancelledError = False"
| "is_exception BaseError = False"
| "is_exception e = True"

text \<open>\<^verbatim>\<open>await handler(data)\<close>: the call is recorded with its outcome.\<close>

definition run_handler :: "handler \<Rightarrow> message \<Rightarrow> client \<Rightarrow> (error + unit) \<times> client" where
  "run_handler h d s =
    (let s1 = s\<lparr>trace := trace s @ [Invoke (hname h) d (hrun h d)]\<rparr>
     in case hrun h d of
          Returns \<Rightarrow> (Inr (), s1)
        | Raises \<Rightarrow> (Inl HandlerError, s1)
        | RaisesCancelled \<Rightarrow> (Inl CancelledError, s1)
        | RaisesBase \<Rightarrow> (Inl BaseError, s1))"

text \<open>\<^verbatim>\<open>try: await handler(data) except Exception: pass\<close>.\<close>

definition try_handler :: "handler \<Rightarrow> message \<Rightarrow> client \<Rightarrow> (error + unit) \<times> client" where
  "try_handler h d s =
    (case run_handler h d s of
       (Inl e, s1) \<Rightarrow> if is_exception e then (Inr (), s1) else (Inl e, s1)
     | (Inr u, s1) \<Rightarrow> (Inr (), s1))"

text \<open>
  The dispatch step of \<^verbatim>\<open>_receive_loop\<close> (from \<^verbatim>\<open>event_type = data.get("type", "")\<close> on):
  the handler registered for the type, then the handler registered for \<^verbatim>\<open>"*"\<close>.
\<close>

definition dispatch :: "message \<Rightarrow> client \<Rightarrow> (error + unit) \<times> client" where
  "dispatch d s =
    (let event_type = get_default (mtype d) []
     in case (case handlers s event_type of
                None \<Rightarrow> (Inr (), s)
              | Some h \<Rightarrow> try_handler h d s) of
          (Inl e, s1) \<Rightarrow> (Inl e, s1)
        | (Inr u, s1) \<Rightarrow>
            (case handlers s1 (lit ''*'') of
               None \<Rightarrow> (Inr (), s1)
             | Some h \<Rightarrow> try_handler h d s1))"

text \<open>
  Decoding what \<^verbatim>\<open>recv\<close> returned:
  \<^verbatim>\<open>self._encoder.decode(message)\<close> for bytes under the binary protocol, else
  \<^verbatim>\<open>json.loads(message)\<close>.
\<close>

fun decode_inbound :: "client \<Rightarrow> inbound \<Rightarrow> error + message" where
  "decode_inbound s (RecvBytes b j) = (if encoder s then decode b else j)"
| "decode_inbound s (RecvText j) = j"
| "decode_inbound s RecvClosed = Inl ConnectionClosed"
| "decode_inbound s RecvCancelled = Inl CancelledError"
| "decode_inbound s RecvError = Inl OtherError"

text \<open>
  One message in the \<^verbatim>\<open>try\<close> of the loop: what \<^verbatim>\<open>recv\<close> gave is decoded and
  dispatched, and the first exception ends it.
\<close>

definition receive_message :: "inbound \<Rightarrow> client \<Rightarrow> (error + unit) \<times> client" where
  "receive_message msg s =
    (case decode_inbound s msg of Inl e \<Rightarrow> (Inl e, s) | Inr d \<Rightarrow> dispatch d s)"

text \<open>
  How the loop ends: \<open>Exited\<close> when the source leaves the \<^verbatim>\<open>while\<close> loop, \<open>Crashed\<close> when
  an exception leaves \<^verbatim>\<open>_receive_loop\<close>, \<open>Awaiting\<close> when the inbox is used up and
  \<^verbatim>\<open>recv\<close> waits.
\<close>

datatype loop_end = Exited | Crashed | Awaiting

text \<open>Sending and reconnecting leave the inbox alone, and a reconnection uses up the script.\<close>

lemma send_message_env:
  "inbox (snd (send_message m s)) = inbox s \<and>
   connect_script (snd (send_message m s)) = connect_script s \<and>
   ws (snd (send_message m s)) = ws s"
  by (auto simp: send_message_def split: sum.splits prod.splits bool.splits)

lemma send_subscribes_env:
  "inbox (snd (send_subscribes cs s)) = inbox s \<and>
   connect_script (snd (send_subscribes cs s)) = connect_script s \<and>
   ws (snd (send_subscribes cs s)) = ws s"
proof (induction cs arbitrary: s)
  case Nil
  then show ?case by simp
next
  case (Cons c cs)
  show ?case
    using send_message_env [of "subscribe_message c" s] Cons [of "snd (send_subscribe c s)"]
    by (auto simp: send_subscribe_def split: prod.splits sum.splits)
qed

lemma reconnect_env:
  "inbox (reconnect s) = inbox s"
  "connect_script s \<noteq> [] \<Longrightarrow> length (connect_script (reconnect s)) < length (connect_script s)"
  "connect_script s = [] \<Longrightarrow> connect_script (reconnect s) = [] \<and> ws (reconnect s) = Some True"
  by (auto simp: reconnect_def Let_def send_subscribes_env neq_Nil_conv
      split: prod.splits bool.splits)

lemma try_handler_inbox: "inbox (snd (try_handler h d s)) = inbox s"
  by (simp add: try_handler_def run_handler_def Let_def split: hresult.splits)

lemma dispatch_inbox: "inbox (snd (dispatch d s)) = inbox s"
  by (auto simp: dispatch_def Let_def try_handler_inbox split: option.splits prod.splits sum.splits
      dest: arg_cong [where f = "\<lambda>p. inbox (snd p)"])

lemma receive_message_inbox: "(r, s1) = receive_message msg s \<Longrightarrow> inbox s1 = inbox s"
  using dispatch_inbox [of _ s]
  by (auto simp: receive_message_def split: sum.splits
      dest: arg_cong [where f = "\<lambda>p. inbox (snd p)"])

text \<open>
  \<^verbatim>\<open>WebSocketClient._receive_loop\<close>. An exception raised inside the \<^verbatim>\<open>try\<close> (by
  \<^verbatim>\<open>recv\<close>, by the decoding or by the dispatch step) goes to the \<^verbatim>\<open>except\<close> clauses in
  their order: \<^verbatim>\<open>ConnectionClosed\<close>, \<^verbatim>\<open>CancelledError\<close>, \<^verbatim>\<open>Exception\<close>. After
  \<^verbatim>\<open>ConnectionClosed\<close> the socket is closed.
\<close>

function receive_loop :: "client \<Rightarrow> loop_end \<times> client" where
  "receive_loop s =
    (if \<not> running s then (Exited, s)
     else if ws s = None \<or> ws s \<noteq> Some True then
       (if auto_reconnect s then receive_loop (reconnect s) else (Exited, s))
     else
       case inbox s of
         [] \<Rightarrow> (Awaiting, s)
       | msg # rest \<Rightarrow>
           (case receive_message msg (s\<lparr>inbox := rest\<rparr>) of
              (Inr u, s1) \<Rightarrow> receive_loop s1
            | (Inl e, s1) \<Rightarrow>
                if e = ConnectionClosed then
                  (if auto_reconnect s1 \<and> running s1
                   then receive_loop (reconnect (s1\<lparr>ws := Some False\<rparr>))
                   else (Exited, s1\<lparr>ws := Some False\<rparr>))
                else if e = CancelledError then (Exited, s1)
                else if is_exception e then
                  (if auto_reconnect s1 \<and> running s1
                   then receive_loop (s1\<lparr>trace := trace s1 @ [Sleep 0.1]\<rparr>)
                   else (Exited, s1))
                else (Crashed, s1)))"
  by pat_completeness auto

termination
  apply (relation "measures [\<lambda>s. length (inbox s), \<lambda>s. length (connect_script s),
    \<lambda>s. if ws s = Some True then 0 else 1]")
     apply simp
  subgoal for s using reconnect_env [of s] by (cases "connect_script s = []") auto
    apply (auto simp: reconnect_env dest!: receive_message_inbox)
  done

declare receive_loop.simps [simp del]

subsection \<open>Observations and scenarios\<close>

text \<open>The arguments of the calls of \<^verbatim>\<open>asyncio.sleep\<close> in a trace, in order.\<close>

fun sleeps :: "event list \<Rightarrow> real list" where
  "sleeps [] = []"
| "sleeps (Sleep d # es) = d # sleeps es"
| "sleeps (e # es) = sleeps es"

text \<open>\<^verbatim>\<open>asyncio.sleep(d)\<close> returns at once when \<open>d \<le> 0\<close>: the time it waits.\<close>

definition waited :: "real \<Rightarrow> real" where
  "waited d = max 0 d"

text \<open>
  The waits the backoff rule names for initial delay \<open>d0\<close> and maximum \<open>dmax\<close>:
  \<open>d0\<close>, \<open>min (2 * d0) dmax\<close>, \<open>min (4 * d0) dmax\<close>, ... (\<open>n\<close> of them).
\<close>

definition claimed_waits :: "real \<Rightarrow> real \<Rightarrow> nat \<Rightarrow> real list" where
  "claimed_waits d0 dmax n = map (\<lambda>k. if k = 0 then d0 else min (2 ^ k * d0) dmax) [0..<n]"

text \<open>
  The waits of \<open>n\<close> calls of \<^verbatim>\<open>_reconnect\<close> that all fail, from the current delay \<open>c\<close>:
  each call waits the current delay and then sets it to \<^verbatim>\<open>min(c * 2, dmax)\<close>.
\<close>

fun backoff_waits :: "real \<Rightarrow> real \<Rightarrow> nat \<Rightarrow> real list" where
  "backoff_waits c dmax 0 = []"
| "backoff_waits c dmax (Suc n) = c # backoff_waits (min (c * 2) dmax) dmax n"

text \<open>The current delay after \<open>n\<close> such calls.\<close>

fun delay_after :: "real \<Rightarrow> real \<Rightarrow> nat \<Rightarrow> real" where
  "delay_after c dmax 0 = c"
| "delay_after c dmax (Suc n) = delay_after (min (c * 2) dmax) dmax n"

text \<open>
  A handler that, on the message \<open>d\<close>, returns or raises an exception of the class
  \<^verbatim>\<open>Exception\<close>; no handler is such a handler too.
\<close>

fun exception_only :: "handler option \<Rightarrow> message \<Rightarrow> bool" where
  "exception_only None d = True"
| "exception_only (Some h) d = (hrun h d = Returns \<or> hrun h d = Raises)"

text \<open>
  The calls the dispatch step is to make for a message: the handler registered for its
  type, then the handler registered for \<^verbatim>\<open>"*"\<close>.
\<close>

definition expected_calls :: "client \<Rightarrow> message \<Rightarrow> event list" where
  "expected_calls s d =
    (case handlers s (get_default (mtype d) []) of
       None \<Rightarrow> []
     | Some h \<Rightarrow> [Invoke (hname h) d (hrun h d)]) @
    (case handlers s (lit ''*'') of
       None \<Rightarrow> []
     | Some h \<Rightarrow> [Invoke (hname h) d (hrun h d)])"

text \<open>
  A connected client with a handler for the type \<^verbatim>\<open>"x"\<close> that raises
  \<^verbatim>\<open>asyncio.CancelledError\<close> and a handler for the type \<^verbatim>\<open>"y"\<close> that returns, which
  receives a message of type \<^verbatim>\<open>"x"\<close> and then one of type \<^verbatim>\<open>"y"\<close>.
\<close>

definition message_x :: message where
  "message_x = \<lparr>mtype = Some (lit ''x''), mchannel = Some [], mdata = Some []\<rparr>"

definition message_y :: message where
  "message_y = \<lparr>mtype = Some (lit ''y''), mchannel = Some [], mdata = Some []\<rparr>"

definition cancelled_handler :: handler where
  "cancelled_handler = \<lparr>hname = ''hx'', hrun = (\<lambda>d. RaisesCancelled)\<rparr>"

definition returning_handler :: handler where
  "returning_handler = \<lparr>hname = ''hy'', hrun = (\<lambda>d. Returns)\<rparr>"

definition raising_handler :: handler where
  "raising_handler = \<lparr>hname = ''hx'', hrun = (\<lambda>d. Raises)\<rparr>"

definition two_messages :: "handler \<Rightarrow> client" where
  "two_messages hx =
    (on (lit ''y'') returning_handler (on (lit ''x'') hx (init False True 1 30)))
      \<lparr>ws := Some True, running := True,
       inbox := [RecvText (Inr message_x), RecvText (Inr message_y)]\<rparr>"

text \<open>
  A client (JSON protocol, initial delay 1, maximum 3) whose first connect succeeds and
  whose connection is then lost; the next two connects fail, the third succeeds, the
  fourth fails.
\<close>

definition backoff_client :: client where
  "backoff_client =
    (init False True 1 3)
      \<lparr>connect_script := [True, False, False, True, False], inbox := [RecvClosed]\<rparr>"

section \<open>Properties of the binary protocol\<close>

subsection \<open>Basic facts\<close>

lemma ebind_Inr [simp]: "ebind (Inr x) f = f x"
  by (simp add: ebind_def)

lemma ebind_Inl [simp]: "ebind (Inl e) f = Inl e"
  by (simp add: ebind_def)

lemma py_slice_Cons: "0 < a \<Longrightarrow> py_slice (x # xs) a b = py_slice xs (a - 1) (b - 1)"
  by (cases a) (simp_all add: py_slice_def)

subsection \<open>The kind byte\<close>

text \<open>
  Claim C9. \<^verbatim>\<open>decode\<close> reads the kind byte and never uses it: the message type of the
  result is the message-type string of the frame. So for every byte \<open>b\<close>, in particular
  for every byte outside \<open>0x01 .. 0x05\<close>, and every byte string \<open>rest\<close>, decoding
  \<open>b # rest\<close> gives what decoding \<open>MSG_DATA # rest\<close> gives: the same message when one of
  them returns, the same exception when one of them raises.
\<close>

theorem decode_unknown_kind_as_data: "decode (b # rest) = decode (MSG_DATA # rest)"
  by (simp add: decode_def py_index_def py_slice_Cons cong: if_cong)

subsection \<open>Ill-formed UTF-8\<close>

text \<open>
  Claim C1. \<^verbatim>\<open>decode\<close> is claimed to return a message for every byte string. It decodes
  the channel with the strict \<^verbatim>\<open>bytes.decode("utf-8")\<close>, so on the four bytes
  \<^verbatim>\<open>03 00 01 FF\<close> (kind Data, channel length 1, channel byte \<open>0xFF\<close>) it raises
  UnicodeDecodeError instead.
\<close>

theorem decode_raises_on_invalid_utf8:
  "decode [0x03, 0x00, 0x01, 0xFF] = Inl UnicodeDecodeError"
  by (simp add: decode_def py_index_def py_slice_def unpack_H_def utf8_decode.simps
      utf8_step_def)

subsection \<open>Truncated frames\<close>

lemma unpack_H_length: "unpack_H bs = Inr n \<Longrightarrow> length bs = 2"
  by (simp add: unpack_H_def split: if_splits)

lemma unpack_I_length: "unpack_I bs = Inr n \<Longrightarrow> length bs = 4"
  by (simp add: unpack_I_def split: if_splits)

lemma drop_plus: "drop (a + b) xs = drop b (drop a xs)"
  by (simp add: add.commute)

lemmas slice_simps = py_slice_def drop_plus

lemma decode_empty: "decode [] = Inr (error_message [] ''Empty message'')"
  by (simp add: decode_def)

lemma decode_short_channel_len:
  "length r < 2 \<Longrightarrow> decode (kind # r) = Inr (error_message [] ''Invalid message'')"
  by (simp add: decode_def py_index_def)

lemma decode_short_channel:
  assumes "unpack_H clen = Inr n" "length r < n"
  shows "decode (kind # clen @ r) = Inr (error_message [] ''Invalid message'')"
  using assms unpack_H_length [OF assms(1)]
  by (simp add: decode_def py_index_def slice_simps del: drop_drop)

lemma decode_short_type_len:
  assumes "unpack_H clen = Inr (length cb)" "utf8_decode False cb = Inr c" "length r < 2"
  shows "decode (kind # clen @ cb @ r) = Inr (error_message c ''Invalid message'')"
  using assms unpack_H_length [OF assms(1)]
  by (simp add: decode_def py_index_def slice_simps del: drop_drop)

lemma decode_short_type:
  assumes "unpack_H clen = Inr (length cb)" "utf8_decode False cb = Inr c"
    "unpack_H tlen = Inr n" "length r < n"
  shows "decode (kind # clen @ cb @ tlen @ r) = Inr (error_message c ''Invalid message'')"
  using assms unpack_H_length [OF assms(1)] unpack_H_length [OF assms(3)]
  by (simp add: decode_def py_index_def slice_simps del: drop_drop)

lemma decode_short_data_len:
  assumes "unpack_H clen = Inr (length cb)" "utf8_decode False cb = Inr c"
    "unpack_H tlen = Inr (length tb)" "utf8_decode False tb = Inr t" "length r < 4"
  shows "decode (kind # clen @ cb @ tlen @ tb @ r) =
    Inr \<lparr>mtype = Some t, mchannel = Some c, mdata = Some []\<rparr>"
  using assms unpack_H_length [OF assms(1)] unpack_H_length [OF assms(3)]
  by (simp add: decode_def py_index_def slice_simps del: drop_drop)

lemma decode_short_data:
  assumes "unpack_H clen = Inr (length cb)" "utf8_decode False cb = Inr c"
    "unpack_H tlen = Inr (length tb)" "utf8_decode False tb = Inr t"
    "unpack_I dlen = Inr n" "length r < n"
  shows "decode (kind # clen @ cb @ tlen @ tb @ dlen @ r) =
    Inr \<lparr>mtype = Some t, mchannel = Some c, mdata = Some []\<rparr>"
  using assms unpack_H_length [OF assms(1)] unpack_H_length [OF assms(3)]
    unpack_I_length [OF assms(5)]
  by (simp add: decode_def py_index_def slice_simps del: drop_drop)

lemma decode_full:
  assumes "unpack_H clen = Inr (length cb)" "utf8_decode False cb = Inr c"
    "unpack_H tlen = Inr (length tb)" "utf8_decode False tb = Inr t"
    "unpack_I dlen = Inr (length pb)"
  shows "decode (kind # clen @ cb @ tlen @ tb @ dlen @ pb @ r) =
    ebind (decode_data pb) (\<lambda>p. Inr \<lparr>mtype = Some t, mchannel = Some c, mdata = Some p\<rparr>)"
  using assms unpack_H_length [OF assms(1)] unpack_H_length [OF assms(3)]
    unpack_I_length [OF assms(5)]
  by (simp add: decode_def py_index_def slice_simps del: drop_drop)

text \<open>
  What holds of truncated frames. On the empty input \<^verbatim>\<open>decode\<close> returns the error message
  \<^verbatim>\<open>{"type": "error", "channel": "", "data": {"error": "Empty message"}}\<close>. A frame is the kind byte, the two length bytes \<open>clen\<close> of
  the channel, the channel bytes \<open>cb\<close>, the two length bytes \<open>tlen\<close> of the message type,
  its bytes \<open>tb\<close>, the four length bytes \<open>dlen\<close> of the payload and the payload.
  \<^item> When the bytes run out in the channel length or the channel bytes, \<^verbatim>\<open>decode\<close>
    returns the error message with the empty channel.
  \<^item> When the channel bytes are the UTF-8 encoding of \<open>c\<close> and the bytes run out in the
    message-type length or the message-type bytes, it returns the error message with
    the channel \<open>c\<close>.
  \<^item> When moreover the message-type bytes are the UTF-8 encoding of \<open>t\<close> and fewer than four
    bytes follow, or the four length bytes declare more payload bytes than follow, it
    returns the message with type \<open>t\<close>, channel \<open>c\<close> and the empty payload.
\<close>

theorem decode_truncation_stages:
  "decode [] = Inr (error_message [] ''Empty message'') \<and>
   (length r1 < 2 \<longrightarrow> decode (kind # r1) = Inr (error_message [] ''Invalid message'')) \<and>
   (unpack_H clen = Inr n2 \<and> length r2 < n2 \<longrightarrow>
      decode (kind # clen @ r2) = Inr (error_message [] ''Invalid message'')) \<and>
   (unpack_H clen = Inr (length cb) \<and> utf8_decode False cb = Inr c \<longrightarrow>
      (length r3 < 2 \<longrightarrow>
         decode (kind # clen @ cb @ r3) = Inr (error_message c ''Invalid message'')) \<and>
      (unpack_H tlen = Inr n4 \<and> length r4 < n4 \<longrightarrow>
         decode (kind # clen @ cb @ tlen @ r4) = Inr (error_message c ''Invalid message'')) \<and>
      (unpack_H tlen = Inr (length tb) \<and> utf8_decode False tb = Inr t \<longrightarrow>
         (length r5 < 4 \<longrightarrow>
            decode (kind # clen @ cb @ tlen @ tb @ r5) =
              Inr \<lparr>mtype = Some t, mchannel = Some c, mdata = Some []\<rparr>) \<and>
         (unpack_I dlen = Inr n6 \<and> length r6 < n6 \<longrightarrow>
            decode (kind # clen @ cb @ tlen @ tb @ dlen @ r6) =
              Inr \<lparr>mtype = Some t, mchannel = Some c, mdata = Some []\<rparr>)))"
  by (intro conjI impI; (elim conjE)?)
    (simp_all only: decode_empty decode_short_channel_len decode_short_channel
      decode_short_type_len decode_short_type decode_short_data_len decode_short_data)

theorem decode_truncation_stages_witness:
  "unpack_H [0, 1] = Inr (length [0x41 :: byte]) \<and> utf8_decode False [0x41] = Inr [65] \<and>
   unpack_H [0, 2] = Inr (length [0x42, 0x43 :: byte]) \<and>
   utf8_decode False [0x42, 0x43] = Inr [66, 67] \<and>
   unpack_I [0, 0, 0, 9] = Inr 9 \<and>
   decode [3, 0] = Inr (error_message [] ''Invalid message'') \<and>
   decode [3, 0, 1] = Inr (error_message [] ''Invalid message'') \<and>
   decode [3, 0, 1, 0x41, 0] = Inr (error_message [65] ''Invalid message'') \<and>
   decode [3, 0, 1, 0x41, 0, 2, 0x42] = Inr (error_message [65] ''Invalid message'') \<and>
   decode [3, 0, 1, 0x41, 0, 2, 0x42, 0x43, 0, 0, 0] =
     Inr \<lparr>mtype = Some [66, 67], mchannel = Some [65], mdata = Some []\<rparr> \<and>
   decode [3, 0, 1, 0x41, 0, 2, 0x42, 0x43, 0, 0, 0, 9, 0, 0] =
     Inr \<lparr>mtype = Some [66, 67], mchannel = Some [65], mdata = Some []\<rparr>"
  using decode_truncation_stages [of "[0]" 3 "[0, 1]" 1 "[]" "[0x41]" "[65]" "[0]"
      "[0, 2]" 2 "[0x42]" "[0x42, 0x43]" "[66, 67]" "[0, 0, 0]" "[0, 0, 0, 9]" 9 "[0, 0]"]
  by (simp add: unpack_H_def unpack_I_def utf8_decode.simps utf8_step_def)

text \<open>
  Claim C5. The claim promises the error message with the channel parsed so far whenever
  the bytes run out before the payload length. In the eight bytes
  \<^verbatim>\<open>03 00 02 C3 28 00 05 41\<close> the message type is declared with five bytes and has one,
  so the bytes run out in the message-type stage; but the two channel bytes \<^verbatim>\<open>C3 28\<close>
  are not UTF-8, and the strict \<^verbatim>\<open>bytes.decode("utf-8")\<close> of the channel raises
  UnicodeDecodeError before the message-type length is looked at. No error message is
  returned.
\<close>

theorem decode_raises_before_type_stage:
  "decode [0x03, 0x00, 0x02, 0xC3, 0x28, 0x00, 0x05, 0x41] = Inl UnicodeDecodeError"
  by (simp add: decode_def py_index_def py_slice_def unpack_H_def utf8_decode.simps
      utf8_step_def is_cont_def)

section \<open>The codecs are inverse to each other\<close>

subsection \<open>UTF-8\<close>

lemma ebind_eq_Inr: "ebind m f = Inr y \<longleftrightarrow> (\<exists>x. m = Inr x \<and> f x = Inr y)"
  by (cases m) simp_all


lemma digit64_second: "(c::nat) div 4096 * 64 + c div 64 mod 64 = c div 64"
  using div_mult_mod_eq [of "c div 64" 64] by (simp add: div_mult2_eq [symmetric])

lemma digit64_third: "(c::nat) div 262144 * 64 + c div 4096 mod 64 = c div 4096"
  using div_mult_mod_eq [of "c div 4096" 64] by (simp add: div_mult2_eq [symmetric])

lemma lead2_range: "0x80 \<le> c \<Longrightarrow> c < 0x800 \<Longrightarrow> 2 \<le> c div 64 \<and> c div 64 < (32::nat)"
  using div_le_mono [of 128 c 64] by (simp add: less_mult_imp_div_less)

lemma lead3_range: "(c::nat) < 0x10000 \<Longrightarrow> c div 4096 < 16"
  by (simp add: less_mult_imp_div_less)

lemma lead3_not_overlong: "0x800 \<le> (c::nat) \<Longrightarrow> c div 4096 = 0 \<Longrightarrow> 32 \<le> c div 64 mod 64"
  using div_le_mono [of 2048 c 64] digit64_second [of c] by simp

lemma lead3_not_surrogate:
  assumes "\<not> (0xD800 \<le> c \<and> c < 0xE000)" "(c::nat) div 4096 = 13"
  shows "c div 64 mod 64 < 32"
proof -
  have "c div 4096 < 14" using assms(2) by simp
  then have "c < 14 * 4096" by (simp only: div_less_iff_less_mult zero_less_numeral)
  then have "c < 0xD800" using assms(1) by simp
  then have "c div 64 < 864" by (simp add: less_mult_imp_div_less)
  then show ?thesis using digit64_second [of c] assms(2) by simp
qed


lemma lead4_range: "(c::nat) < 0x110000 \<Longrightarrow> c div 262144 < 5"
  by (simp add: less_mult_imp_div_less)

lemma lead4_not_overlong: "0x10000 \<le> (c::nat) \<Longrightarrow> c div 262144 = 0 \<Longrightarrow> 16 \<le> c div 4096 mod 64"
  using div_le_mono [of 65536 c 4096] digit64_third [of c] by simp

lemma lead4_not_above:
  assumes "(c::nat) < 0x110000" "c div 262144 = 4"
  shows "c div 4096 mod 64 < 16"
proof -
  have "c div 4096 < 272" using assms(1) by (simp add: less_mult_imp_div_less)
  then show ?thesis using digit64_third [of c] assms(2) by simp
qed

lemma digits3_sum: "c div 4096 * 4096 + c div 64 mod 64 * 64 + c mod 64 = (c::nat)"
proof -
  have "c div 4096 * 4096 + c div 64 mod 64 * 64 = (c div 4096 * 64 + c div 64 mod 64) * 64"
    by simp
  also have "\<dots> = c div 64 * 64" by (simp only: digit64_second)
  finally show ?thesis by simp
qed

lemma digits4_sum: "c div 262144 * 262144 + c div 4096 mod 64 * 4096 + c div 64 mod 64 * 64 + c mod 64 = (c::nat)"
proof -
  have "c div 262144 * 262144 + c div 4096 mod 64 * 4096 = (c div 262144 * 64 + c div 4096 mod 64) * 4096"
    by simp
  also have "\<dots> = c div 4096 * 4096" by (simp only: digit64_third)
  finally show ?thesis using digits3_sum [of c] by simp
qed

lemma utf8_step_ascii: "c < 0x80 \<Longrightarrow> utf8_step (c # rest) = (Some c, 1)"
  by (simp add: utf8_step_def)

lemma utf8_step_two:
  assumes "0x80 \<le> c" "c < 0x800"
  shows "utf8_step ((0xC0 + c div 64) # (0x80 + c mod 64) # rest) = (Some c, 2)"
  using lead2_range [OF assms] by (simp add: utf8_step_def is_cont_def)

lemma utf8_step_three:
  assumes "0x800 \<le> c" "c < 0x10000" "\<not> (0xD800 \<le> c \<and> c < 0xE000)"
  shows "utf8_step ((0xE0 + c div 4096) # (0x80 + c div 64 mod 64) # (0x80 + c mod 64) # rest) = (Some c, 3)"
proof -
  have n1: "\<not> (c div 4096 = 0 \<and> c div 64 mod 64 < 32)"
    using lead3_not_overlong [OF assms(1)] by (meson not_less)
  have n2: "\<not> (c div 4096 = 13 \<and> 32 \<le> c div 64 mod 64)"
    using lead3_not_surrogate [OF assms(3)] by (meson not_le)
  show ?thesis
    using lead3_range [OF assms(2)] n1 n2
    by (simp add: utf8_step_def is_cont_def Let_def digits3_sum)
qed

lemma utf8_step_four:
  assumes "0x10000 \<le> c" "c < 0x110000"
  shows "utf8_step ((0xF0 + c div 262144) # (0x80 + c div 4096 mod 64) # (0x80 + c div 64 mod 64) # (0x80 + c mod 64) # rest) = (Some c, 4)"
proof -
  have n1: "\<not> (c div 262144 = 0 \<and> c div 4096 mod 64 < 16)"
    using lead4_not_overlong [OF assms(1)] by (meson not_less)
  have n2: "\<not> (c div 262144 = 4 \<and> 16 \<le> c div 4096 mod 64)"
    using lead4_not_above [OF assms(2)] by (meson not_le)
  show ?thesis
    using lead4_range [OF assms(2)] n1 n2
    by (simp add: utf8_step_def is_cont_def Let_def digits4_sum)
qed


lemma unat_byte: "n < 256 \<Longrightarrow> unat (of_nat n :: byte) = n"
  by (simp add: unat_of_nat)

lemma unat_byte_num:
  "numeral k + n < 256 \<Longrightarrow> unat (numeral k + of_nat n :: byte) = numeral k + n"
  using unat_byte [of "numeral k + n"] by simp

lemma mod64_less: "(x::nat) mod 64 < 64"
  by simp

lemma utf8_step_encode_cp:
  assumes "utf8_encode_cp c = Inr b"
  shows "utf8_step (map unat b @ rest) = (Some c, length b) \<and> b \<noteq> []"
proof -
  consider "c < 0x80" | "0x80 \<le> c" "c < 0x800" | "0x800 \<le> c" "c < 0x10000" "\<not> (0xD800 \<le> c \<and> c < 0xE000)"
    | "0x10000 \<le> c" "c < 0x110000"
    using assms by (auto simp: utf8_encode_cp_def split: if_splits)
  then show ?thesis
  proof cases
    case 1
    then have "b = [of_nat c]" using assms by (auto simp: utf8_encode_cp_def split: if_splits)
    then show ?thesis using 1 utf8_step_ascii [of c rest] by (simp add: unat_byte)
  next
    case 2
    then have b: "b = [of_nat (0xC0 + c div 64), of_nat (0x80 + c mod 64)]"
      using assms by (auto simp: utf8_encode_cp_def split: if_splits)
    have "map unat b = [0xC0 + c div 64, 0x80 + c mod 64]"
      unfolding b using lead2_range [OF 2] mod64_less [of c] by (simp add: unat_byte_num)
    then show ?thesis using utf8_step_two [OF 2, of rest] b by simp
  next
    case 3
    then have b: "b = [of_nat (0xE0 + c div 4096), of_nat (0x80 + c div 64 mod 64), of_nat (0x80 + c mod 64)]"
      using assms by (auto simp: utf8_encode_cp_def split: if_splits)
    have "map unat b = [0xE0 + c div 4096, 0x80 + c div 64 mod 64, 0x80 + c mod 64]"
      unfolding b using lead3_range [OF 3(2)] mod64_less [of c] mod64_less [of "c div 64"] by (simp add: unat_byte_num)
    then show ?thesis using utf8_step_three [OF 3, of rest] b by simp
  next
    case 4
    then have b: "b = [of_nat (0xF0 + c div 262144), of_nat (0x80 + c div 4096 mod 64), of_nat (0x80 + c div 64 mod 64), of_nat (0x80 + c mod 64)]"
      using assms by (auto simp: utf8_encode_cp_def split: if_splits)
    have "map unat b = [0xF0 + c div 262144, 0x80 + c div 4096 mod 64, 0x80 + c div 64 mod 64, 0x80 + c mod 64]"
      unfolding b using lead4_range [OF 4(2)] mod64_less [of c] mod64_less [of "c div 64"] mod64_less [of "c div 4096"] by (simp add: unat_byte_num)
    then show ?thesis using utf8_step_four [OF 4, of rest] b by simp
  qed
qed

lemma utf8_decode_encode:
  "utf8_encode s = Inr bs \<Longrightarrow> utf8_decode r bs = Inr s"
proof (induction s arbitrary: bs)
  case Nil
  then show ?case by (simp add: utf8_decode.simps)
next
  case (Cons c cs)
  from Cons.prems obtain b bs' where b: "utf8_encode_cp c = Inr b" and bs': "utf8_encode cs = Inr bs'"
    and bs: "bs = b @ bs'"
    by (auto simp: ebind_eq_Inr)
  from utf8_step_encode_cp [OF b, of "map unat bs'"] have st: "utf8_step (map unat (b @ bs')) = (Some c, length b)" and ne: "b \<noteq> []" by auto
  have "utf8_decode r (b @ bs') = ebind (utf8_decode r (drop (length b) (b @ bs'))) (\<lambda>cs. Inr (c # cs))"
    using ne st by (subst utf8_decode.simps) simp
  then show ?case using Cons.IH [OF bs'] bs by simp
qed

subsection \<open>Big-endian integers and doubles\<close>

lemma length_nat_be [simp]: "length (nat_be k n) = k"
  by (induction k arbitrary: n) simp_all

lemma be_nat_append: "be_nat (xs @ ys) acc = be_nat ys (be_nat xs acc)"
  by (induction xs arbitrary: acc) simp_all

lemma be_nat_nat_be: "be_nat (nat_be k n) acc = acc * 256 ^ k + n mod 256 ^ k"
proof (induction k arbitrary: n acc)
  case 0
  then show ?case by simp
next
  case (Suc k)
  have "n mod (256 * 256 ^ k) = 256 * (n div 256 mod 256 ^ k) + n mod 256"
    by (rule mod_mult2_eq)
  then show ?case using Suc.IH [of "n div 256" acc]
    by (simp add: be_nat_append unat_byte algebra_simps)
qed

lemma unpack_H_pack_H: "pack_H n = Inr bs \<Longrightarrow> unpack_H bs = Inr n"
  by (auto simp: pack_H_def unpack_H_def be_nat_nat_be split: if_splits)

lemma unpack_I_pack_I: "pack_I n = Inr bs \<Longrightarrow> unpack_I bs = Inr n"
  by (auto simp: pack_I_def unpack_I_def be_nat_nat_be split: if_splits)

lemma length_pack_d [simp]: "length (pack_d x) = 8"
  by (simp add: pack_d_def)

lemma unpack_d_pack_d: "unpack_d (pack_d x) = Inr x"
proof -
  have "unat x < 2 ^ 64" using unsigned_less [of x, where ?'a = nat] by simp
  then have "unat x mod 256 ^ 8 = unat x" by simp
  then show ?thesis by (simp add: unpack_d_def pack_d_def be_nat_nat_be)
qed

section \<open>Payload fields\<close>

subsection \<open>One field of a payload\<close>

lemma decode_value_local:
  "decode_value (p @ body @ r) tag (length p) (length body) = decode_value body tag 0 (length body)"
  by (cases body) (simp_all add: decode_value_def py_slice_def py_index_def nth_append)

lemma decode_fields_iteration:
  assumes "unpack_H kl = Inr (length kb)" "unpack_I vl = Inr (length body)"
  shows "decode_fields (p @ kl @ kb @ tag # vl @ body @ r) (Suc n) (length p) res =
    ebind (utf8_decode False kb) (\<lambda>key.
    ebind (decode_value body tag 0 (length body)) (\<lambda>v.
      decode_fields (p @ kl @ kb @ tag # vl @ body @ r) n
        (length p + 2 + length kb + 1 + 4 + length body) (dict_set res key v)))"
proof -
  have v: "decode_value (p @ kl @ kb @ tag # vl @ body @ r) tag off (length body)
    = decode_value body tag 0 (length body)" if "off = length (p @ kl @ kb @ tag # vl)" for off
    using decode_value_local [of "p @ kl @ kb @ tag # vl" body r tag] that by simp
  show ?thesis
    using assms unpack_H_length [OF assms(1)] unpack_I_length [OF assms(2)]
    by (simp add: py_index_def slice_simps nth_append v del: drop_drop)
qed

lemma decode_fields_step:
  assumes "unpack_H kl = Inr (length kb)" "utf8_decode False kb = Inr key"
    "unpack_I vl = Inr (length body)"
  shows "decode_fields (p @ kl @ kb @ tag # vl @ body @ r) (Suc n) (length p) res =
    ebind (decode_value body tag 0 (length body)) (\<lambda>v.
      decode_fields (p @ kl @ kb @ tag # vl @ body @ r) n
        (length p + 2 + length kb + 1 + 4 + length body) (dict_set res key v))"
  by (simp only: decode_fields_iteration [OF assms(1,3)] assms(2) ebind_Inr)









subsection \<open>Encoding a payload\<close>

lemma ebind_assoc: "ebind (ebind m f) g = ebind m (\<lambda>x. ebind (f x) g)"
  by (cases m) simp_all

lemma encode_fields_prefix:
  "encode_fields fs (acc @ acc') = ebind (encode_fields fs acc') (\<lambda>bs. Inr (acc @ bs))"
proof (induction fs arbitrary: acc')
  case Nil
  then show ?case by simp
next
  case (Cons f fs)
  obtain k v where f: "f = (k, v)" by (cases f)
  have ih: "encode_fields fs (acc @ a) = ebind (encode_fields fs a) (\<lambda>bs. Inr (acc @ bs))" for a
    by (rule Cons.IH)
  show ?case
    unfolding f by (simp add: ebind_assoc ih [symmetric])
qed

lemma encode_fields_acc:
  "encode_fields fs acc = ebind (encode_fields fs []) (\<lambda>bs. Inr (acc @ bs))"
  using encode_fields_prefix [of fs acc "[]"] by simp

lemma encode_fields_Cons:
  "encode_fields ((k, v) # fs) [] = Inr bs \<longleftrightarrow>
    (\<exists>kb kl vb fb. utf8_encode k = Inr kb \<and> pack_H (length kb) = Inr kl \<and>
       encode_value v = Inr vb \<and> encode_fields fs [] = Inr fb \<and> bs = kl @ kb @ vb @ fb)"
proof -
  have "encode_fields fs (a @ b @ c) = ebind (encode_fields fs []) (\<lambda>bs. Inr (a @ b @ c @ bs))"
    for a b c
    using encode_fields_acc [of fs "a @ b @ c"] by simp
  then show ?thesis by (simp add: ebind_eq_Inr) blast
qed


lemma encode_fields_append:
  "encode_fields (xs @ ys) [] = Inr bs \<longleftrightarrow>
    (\<exists>fx fy. encode_fields xs [] = Inr fx \<and> encode_fields ys [] = Inr fy \<and> bs = fx @ fy)"
proof (induction xs arbitrary: bs)
  case Nil
  then show ?case by simp
next
  case (Cons f xs)
  obtain k v where f: "f = (k, v)" by (cases f)
  show ?case (is "?L = ?R")
  proof
    assume ?L
    then obtain kb kl vb fb where a: "utf8_encode k = Inr kb" "pack_H (length kb) = Inr kl"
      "encode_value v = Inr vb" "encode_fields (xs @ ys) [] = Inr fb" "bs = kl @ kb @ vb @ fb"
      unfolding f append_Cons encode_fields_Cons by blast
    from a(4) obtain fx fy where b: "encode_fields xs [] = Inr fx" "encode_fields ys [] = Inr fy"
      "fb = fx @ fy"
      unfolding Cons.IH by blast
    have "encode_fields ((k, v) # xs) [] = Inr (kl @ kb @ vb @ fx)"
      unfolding encode_fields_Cons using a(1,2,3) b(1) by blast
    then show ?R using b(2,3) a(5) f by simp
  next
    assume ?R
    then obtain fx fy where b: "encode_fields ((k, v) # xs) [] = Inr fx"
      "encode_fields ys [] = Inr fy" "bs = fx @ fy"
      unfolding f by blast
    from b(1) obtain kb kl vb fb where a: "utf8_encode k = Inr kb" "pack_H (length kb) = Inr kl"
      "encode_value v = Inr vb" "encode_fields xs [] = Inr fb" "fx = kl @ kb @ vb @ fb"
      unfolding encode_fields_Cons by blast
    have "encode_fields (xs @ ys) [] = Inr (fb @ fy)"
      unfolding Cons.IH using a(4) b(2) by blast
    then have "encode_fields ((k, v) # xs @ ys) [] = Inr (kl @ kb @ vb @ fb @ fy)"
      unfolding encode_fields_Cons using a(1,2,3) by blast
    then show ?L using a(5) b(3) f by simp
  qed
qed

lemma nat_be_numeral:
  "nat_be (numeral k) n = nat_be (pred_numeral k) (n div 256) @ [of_nat (n mod 256)]"
  by (simp only: numeral_eq_Suc [of k] nat_be.simps)

lemma encode_value_bool:
  "encode_value (PBool b) = Inr [0x03, 0, 0, 0, 1, if b then 0x01 else 0x00]"
  by (simp add: encode_value_def pack_I_def nat_be_numeral VAL_BOOLEAN_def)

lemma pack_H_Inr: "pack_H n = Inr bs \<Longrightarrow> bs = nat_be 2 n"
  by (simp add: pack_H_def split: if_splits)

text \<open>
  Claim C6. \<^verbatim>\<open>isinstance(value, (int, float))\<close> holds for a boolean, but the \<^verbatim>\<open>elif\<close> that
  asks \<^verbatim>\<open>isinstance(value, bool)\<close> comes first. So wherever a boolean \<open>b\<close> stands in a
  payload that \<^verbatim>\<open>_encode_data\<close> encodes, after the fields before it (\<open>fx\<close>) and its key
  (two length bytes and the key bytes \<open>kb\<close>) come the tag \<open>0x03\<close>, the length 1 in four
  bytes and the byte \<open>0x01\<close> for \<^verbatim>\<open>True\<close> or \<open>0x00\<close> for \<^verbatim>\<open>False\<close>, and then the fields
  after it (\<open>fy\<close>).
\<close>

theorem encode_data_boolean:
  assumes "encode_data (xs @ (k, PBool b) # ys) = Inr bs"
  shows "isinstance_int_float (PBool b) \<and>
    (\<exists>fx kb fy. encode_fields xs [] = Inr fx \<and> utf8_encode k = Inr kb \<and>
       encode_fields ys [] = Inr fy \<and>
       bs = nat_be 2 (length xs + 1 + length ys) @ fx @ nat_be 2 (length kb) @ kb @
            [0x03, 0, 0, 0, 1, if b then 0x01 else 0x00] @ fy)"
proof -
  from assms obtain hl where hl: "pack_H (length (xs @ (k, PBool b) # ys)) = Inr hl"
    and e: "encode_fields (xs @ (k, PBool b) # ys) hl = Inr bs"
    by (auto simp: encode_data_def ebind_eq_Inr)
  from e obtain fb where fb: "encode_fields (xs @ (k, PBool b) # ys) [] = Inr fb"
    and bs: "bs = hl @ fb"
    by (subst (asm) encode_fields_acc) (auto simp: ebind_eq_Inr)
  from fb obtain fx fz where fx: "encode_fields xs [] = Inr fx"
    and fz: "encode_fields ((k, PBool b) # ys) [] = Inr fz" and fbe: "fb = fx @ fz"
    unfolding encode_fields_append by blast
  from fz obtain kb kl vb fy where kb: "utf8_encode k = Inr kb"
    and kl: "pack_H (length kb) = Inr kl" and vb: "encode_value (PBool b) = Inr vb"
    and fy: "encode_fields ys [] = Inr fy" and fze: "fz = kl @ kb @ vb @ fy"
    unfolding encode_fields_Cons by blast
  have "bs = nat_be 2 (length xs + 1 + length ys) @ fx @ nat_be 2 (length kb) @ kb @
            [0x03, 0, 0, 0, 1, if b then 0x01 else 0x00] @ fy"
    using pack_H_Inr [OF hl] pack_H_Inr [OF kl] vb
    by (simp add: bs fbe fze encode_value_bool)
  then show ?thesis using fx kb fy by auto
qed

theorem encode_data_boolean_witness:
  "encode_data ([(lit ''n'', PStr (lit ''1''))] @ (lit ''ok'', PBool True) # [(lit ''b'', PBool False)])
     = Inr [0, 3, 0, 1, 0x6E, 0x01, 0, 0, 0, 1, 0x31,
            0, 2, 0x6F, 0x6B, 0x03, 0, 0, 0, 1, 0x01,
            0, 1, 0x62, 0x03, 0, 0, 0, 1, 0x00] \<and>
   isinstance_int_float (PBool True) \<and>
   (\<exists>fx kb fy. encode_fields [(lit ''n'', PStr (lit ''1''))] [] = Inr fx \<and>
       utf8_encode (lit ''ok'') = Inr kb \<and>
       encode_fields [(lit ''b'', PBool False)] [] = Inr fy \<and>
       [0, 3, 0, 1, 0x6E, 0x01, 0, 0, 0, 1, 0x31,
        0, 2, 0x6F, 0x6B, 0x03, 0, 0, 0, 1, 0x01,
        0, 1, 0x62, 0x03, 0, 0, 0, 1, 0x00] =
       nat_be 2 (length [(lit ''n'', PStr (lit ''1''))] + 1 + length [(lit ''b'', PBool False)])
       @ fx @ nat_be 2 (length kb) @ kb @ [0x03, 0, 0, 0, 1, if True then 0x01 else 0x00] @ fy)"
proof -
  have e: "encode_data ([(lit ''n'', PStr (lit ''1''))] @ (lit ''ok'', PBool True) # [(lit ''b'', PBool False)])
     = Inr [0, 3, 0, 1, 0x6E, 0x01, 0, 0, 0, 1, 0x31,
            0, 2, 0x6F, 0x6B, 0x03, 0, 0, 0, 1, 0x01,
            0, 1, 0x62, 0x03, 0, 0, 0, 1, 0x00]"
    by (simp add: encode_data_def encode_value_def pack_H_def pack_I_def nat_be_numeral
        utf8_encode_cp_def lit_def VAL_STRING_def VAL_BOOLEAN_def)
  show ?thesis using encode_data_boolean [OF e] e by blast
qed


subsection \<open>Round trip of a payload\<close>

lemma dict_set_fresh: "k \<notin> fst ` set d \<Longrightarrow> dict_set d k v = d @ [(k, v)]"
  by (induction d) auto

lemma encode_value_decode_value:
  assumes "value_fits v" "encode_value v = Inr vb"
  shows "\<exists>tag vl body. vb = tag # vl @ body \<and> unpack_I vl = Inr (length body)
    \<and> decode_value body tag 0 (length body) = Inr v"
proof (cases v)
  case (PStr s)
  then obtain sb vl where "utf8_encode s = Inr sb" "pack_I (length sb) = Inr vl"
    "vb = VAL_STRING # vl @ sb"
    using assms(2) by (auto simp: encode_value_def ebind_eq_Inr)
  then show ?thesis using PStr
    by (intro exI [of _ VAL_STRING] exI [of _ vl] exI [of _ sb])
      (simp add: decode_value_def py_slice_def unpack_I_pack_I utf8_decode_encode)
next
  case (PBool b)
  then obtain vl where "pack_I 1 = Inr vl" "vb = VAL_BOOLEAN # vl @ [if b then 1 else 0]"
    using assms(2) by (auto simp: encode_value_def ebind_eq_Inr)
  then show ?thesis using PBool unpack_I_pack_I [of 1 vl]
    by (intro exI [of _ VAL_BOOLEAN] exI [of _ vl] exI [of _ "[if b then 1 else 0]"])
      (simp add: decode_value_def py_index_def VAL_BOOLEAN_def VAL_STRING_def VAL_NUMBER_def)
next
  case (PFloat x)
  then obtain vl where "pack_I 8 = Inr vl" "vb = VAL_NUMBER # vl @ pack_d x"
    using assms(2) by (auto simp: encode_value_def ebind_eq_Inr)
  then show ?thesis using PFloat unpack_I_pack_I [of 8 vl]
    by (intro exI [of _ VAL_NUMBER] exI [of _ vl] exI [of _ "pack_d x"])
      (simp add: decode_value_def py_slice_def VAL_STRING_def VAL_NUMBER_def unpack_d_pack_d)
next
  case (PBytes b)
  then obtain vl where "pack_I (length b) = Inr vl" "vb = VAL_BYTES # vl @ b"
    using assms(2) by (auto simp: encode_value_def ebind_eq_Inr)
  then show ?thesis using PBytes unpack_I_pack_I [of "length b" vl]
    by (intro exI [of _ VAL_BYTES] exI [of _ vl] exI [of _ b])
      (simp add: decode_value_def py_slice_def VAL_STRING_def VAL_NUMBER_def VAL_BYTES_def
        VAL_BOOLEAN_def)
qed (use assms(1) in simp_all)

lemma decode_fields_encode_fields:
  assumes "encode_fields fs [] = Inr bs" "list_all field_fits fs"
    "distinct (map fst fs)" "fst ` set fs \<inter> fst ` set res = {}"
  shows "decode_fields (p @ bs) (length fs) (length p) res = Inr (res @ fs)"
  using assms
proof (induction fs arbitrary: p res bs)
  case Nil
  then show ?case by simp
next
  case (Cons f fs)
  obtain k v where f: "f = (k, v)" by (cases f)
  from Cons.prems(1) obtain kb kl vb fb where
    kb: "utf8_encode k = Inr kb" and kl: "pack_H (length kb) = Inr kl"
    and vb: "encode_value v = Inr vb"
    and fb: "encode_fields fs [] = Inr fb" and bs: "bs = kl @ kb @ vb @ fb"
    unfolding f encode_fields_Cons by blast
  from Cons.prems(2) have wv: "value_fits v" by (simp add: f)
  from encode_value_decode_value [OF wv vb] obtain tag vl body where
    vb': "vb = tag # vl @ body" and vl: "unpack_I vl = Inr (length body)"
    and dv: "decode_value body tag 0 (length body) = Inr v" by blast
  have fresh: "k \<notin> fst ` set res" using Cons.prems(4) by (auto simp: f)
  have dat: "p @ bs = (p @ kl @ kb @ tag # vl @ body) @ fb" by (simp add: bs vb')
  have len: "length p + 2 + length kb + 1 + 4 + length body =
    length (p @ kl @ kb @ tag # vl @ body)"
    using unpack_H_length [OF unpack_H_pack_H [OF kl]] unpack_I_length [OF vl] by simp
  have "decode_fields (p @ bs) (length (f # fs)) (length p) res =
    decode_fields (p @ bs) (length fs) (length p + 2 + length kb + 1 + 4 + length body)
      (res @ [(k, v)])"
    using decode_fields_step [OF unpack_H_pack_H [OF kl] utf8_decode_encode [OF kb] vl,
        of p tag fb "length fs" res]
    by (simp add: bs vb' dv dict_set_fresh [OF fresh])
  also have "\<dots> = Inr ((res @ [(k, v)]) @ fs)"
    unfolding dat len
  proof (rule Cons.IH [OF fb])
    show "list_all field_fits fs" using Cons.prems(2) by simp
    show "distinct (map fst fs)" using Cons.prems(3) by simp
    show "fst ` set fs \<inter> fst ` set (res @ [(k, v)]) = {}"
      using Cons.prems(3,4) by (auto simp: f)
  qed
  finally show ?case by (simp add: f)
qed

lemma decode_data_encode_data:
  assumes "encode_data d = Inr bs" "list_all field_fits d" "distinct (map fst d)"
  shows "decode_data bs = Inr d"
proof (cases "d = []")
  case True
  then show ?thesis using assms(1)
    by (auto simp: encode_data_def decode_data_def pack_H_def unpack_H_def py_slice_def
        be_nat_nat_be)
next
  case False
  then obtain hl where hl: "pack_H (length d) = Inr hl" and e: "encode_fields d hl = Inr bs"
    using assms(1) by (auto simp: encode_data_def ebind_eq_Inr)
  from e obtain fb where fb: "encode_fields d [] = Inr fb" and bs: "bs = hl @ fb"
    by (subst (asm) encode_fields_acc) (auto simp: ebind_eq_Inr)
  have l: "length hl = 2" using unpack_H_length [OF unpack_H_pack_H [OF hl]] .
  have "decode_fields (hl @ fb) (length d) (length hl) [] = Inr ([] @ d)"
    by (rule decode_fields_encode_fields [OF fb assms(2,3)]) simp
  then show ?thesis using l unpack_H_pack_H [OF hl]
    by (simp add: decode_data_def bs py_slice_def)
qed


subsection \<open>Round trip of a message\<close>

lemma fits_Inr:
  "fits n s \<Longrightarrow> \<exists>b. utf8_encode s = Inr b \<and> length b < n \<and> utf8_size s = length b"
  by (cases "utf8_encode s") (simp_all add: fits_def utf8_size_def)

lemma pack_H_fits: "n < 65536 \<Longrightarrow> \<exists>bs. pack_H n = Inr bs \<and> length bs = 2"
  by (simp add: pack_H_def)

lemma pack_I_fits: "n < 4294967296 \<Longrightarrow> \<exists>bs. pack_I n = Inr bs \<and> length bs = 4"
  by (simp add: pack_I_def)

lemma encode_value_fits:
  assumes "value_fits v"
  shows "\<exists>vb. encode_value v = Inr vb \<and> length vb = 1 + 4 + value_size v"
proof (cases v)
  case (PStr s)
  with assms obtain b where b: "utf8_encode s = Inr b" "length b < 4294967296"
    "utf8_size s = length b"
    using fits_Inr [of 4294967296 s] by auto
  from pack_I_fits [OF b(2)] obtain vl where "pack_I (length b) = Inr vl" "length vl = 4"
    by blast
  then show ?thesis using PStr b by (simp add: encode_value_def)
next
  case (PBool b)
  from pack_I_fits [of 1] obtain vl where "pack_I 1 = Inr vl" "length vl = 4" by auto
  then show ?thesis using PBool by (simp add: encode_value_def)
next
  case (PFloat x)
  from pack_I_fits [of 8] obtain vl where "pack_I 8 = Inr vl" "length vl = 4" by auto
  then show ?thesis using PFloat by (simp add: encode_value_def)
next
  case (PBytes b)
  with assms have "length b < 4294967296" by simp
  from pack_I_fits [OF this] obtain vl where "pack_I (length b) = Inr vl" "length vl = 4"
    by blast
  then show ?thesis using PBytes by (simp add: encode_value_def)
qed (use assms in simp_all)

lemma encode_fields_fits:
  "list_all field_fits d \<Longrightarrow>
    \<exists>fb. encode_fields d [] = Inr fb \<and> length fb = sum_list (map field_size d)"
proof (induction d)
  case Nil
  then show ?case by simp
next
  case (Cons f d)
  obtain k v where f: "f = (k, v)" by (cases f)
  from Cons.prems have k: "fits 65536 k" and v: "value_fits v" and d: "list_all field_fits d"
    by (simp_all add: f)
  from fits_Inr [OF k] obtain kb where kb: "utf8_encode k = Inr kb" "length kb < 65536"
    "utf8_size k = length kb" by blast
  from pack_H_fits [OF kb(2)] obtain kl where kl: "pack_H (length kb) = Inr kl" "length kl = 2"
    by blast
  from encode_value_fits [OF v] obtain vb where vb: "encode_value v = Inr vb"
    "length vb = 1 + 4 + value_size v" by blast
  from Cons.IH [OF d] obtain fb where fb: "encode_fields d [] = Inr fb"
    "length fb = sum_list (map field_size d)" by blast
  have "encode_fields ((k, v) # d) [] = Inr (kl @ kb @ vb @ fb)"
    unfolding encode_fields_Cons using kb(1) kl(1) vb(1) fb(1) by blast
  then show ?case using kb(3) kl(2) vb(2) fb(2) by (simp add: f)
qed

lemma encode_data_fits:
  assumes "list_all field_fits d" "length d < 65536"
  shows "\<exists>pb. encode_data d = Inr pb \<and> length pb = payload_size d"
proof (cases "d = []")
  case True
  then show ?thesis by (simp add: encode_data_def pack_H_def payload_size_def)
next
  case False
  from pack_H_fits [OF assms(2)] obtain hl where hl: "pack_H (length d) = Inr hl" "length hl = 2"
    by blast
  from encode_fields_fits [OF assms(1)] obtain fb where fb: "encode_fields d [] = Inr fb"
    "length fb = sum_list (map field_size d)" by blast
  have "encode_fields d hl = Inr (hl @ fb)"
    by (subst encode_fields_acc) (simp add: fb(1))
  then show ?thesis using False hl fb(2) by (simp add: encode_data_def payload_size_def)
qed

text \<open>
  Claim C2, amended. Let the message have its three keys, with a channel and a message
  type whose UTF-8 encodings are shorter than \<open>2^16\<close> bytes, and a payload with fewer than
  \<open>2^16\<close> fields whose keys are strings with UTF-8 encodings shorter than \<open>2^16\<close> bytes and
  whose values are text (with a UTF-8 encoding shorter than \<open>2^32\<close> bytes), booleans,
  floats or byte strings (shorter than \<open>2^32\<close> bytes), and let the encoded payload be
  shorter than \<open>2^32\<close> bytes. Then \<^verbatim>\<open>encode\<close> returns, and \<^verbatim>\<open>decode\<close> of its result
  returns the message: the same type (whether or not it is one of the five known type
  strings), the same channel, the same fields in the same order. The keys of the payload
  are distinct because it is a dict. A float is compared by its bit pattern.
\<close>

theorem decode_encode_roundtrip:
  assumes "fits 65536 c" "fits 65536 t" "length d < 65536" "list_all field_fits d"
    "distinct (map fst d)" "payload_size d < 4294967296"
  shows "\<exists>bs. encode \<lparr>mtype = Some t, mchannel = Some c, mdata = Some d\<rparr> = Inr bs \<and>
    decode bs = Inr \<lparr>mtype = Some t, mchannel = Some c, mdata = Some d\<rparr>"
proof -
  from fits_Inr [OF assms(1)] obtain cb where cb: "utf8_encode c = Inr cb" "length cb < 65536"
    by blast
  from pack_H_fits [OF cb(2)] obtain clen where clen: "pack_H (length cb) = Inr clen" by blast
  from fits_Inr [OF assms(2)] obtain tb where tb: "utf8_encode t = Inr tb" "length tb < 65536"
    by blast
  from pack_H_fits [OF tb(2)] obtain tlen where tlen: "pack_H (length tb) = Inr tlen" by blast
  from encode_data_fits [OF assms(4,3)] obtain pb where pb: "encode_data d = Inr pb"
    "length pb = payload_size d" by blast
  from pack_I_fits [of "length pb"] assms(6) pb(2) obtain dlen where
    dlen: "pack_I (length pb) = Inr dlen" by auto
  let ?kind = "get_default (TYPE_TO_BYTE t) MSG_DATA"
  have e: "encode \<lparr>mtype = Some t, mchannel = Some c, mdata = Some d\<rparr> =
    Inr (?kind # clen @ cb @ tlen @ tb @ dlen @ pb @ [])"
    by (simp add: encode_def get_default_def cb(1) clen tb(1) tlen pb(1) dlen)
  have "decode (?kind # clen @ cb @ tlen @ tb @ dlen @ pb @ []) =
    ebind (decode_data pb) (\<lambda>p. Inr \<lparr>mtype = Some t, mchannel = Some c, mdata = Some p\<rparr>)"
    by (rule decode_full [OF unpack_H_pack_H [OF clen] utf8_decode_encode [OF cb(1)]
          unpack_H_pack_H [OF tlen] utf8_decode_encode [OF tb(1)] unpack_I_pack_I [OF dlen]])
  then have "decode (?kind # clen @ cb @ tlen @ tb @ dlen @ pb @ []) =
    Inr \<lparr>mtype = Some t, mchannel = Some c, mdata = Some d\<rparr>"
    by (simp add: decode_data_encode_data [OF pb(1) assms(4,5)])
  with e show ?thesis by blast
qed

theorem decode_encode_roundtrip_witness:
  "fits 65536 (lit ''terminal:1'') \<and> fits 65536 (lit ''data'') \<and>
   length example_payload < 65536 \<and> list_all field_fits example_payload \<and>
   distinct (map fst example_payload) \<and> payload_size example_payload < 4294967296 \<and>
   (\<exists>bs. encode example_message = Inr bs \<and> decode bs = Inr example_message)"
proof -
  have h: "fits 65536 (lit ''terminal:1'')" "fits 65536 (lit ''data'')"
    "length example_payload < 65536" "list_all field_fits example_payload"
    "distinct (map fst example_payload)" "payload_size example_payload < 4294967296"
    by (simp_all add: fits_def utf8_size_def payload_size_def example_payload_def lit_def
        utf8_encode_cp_def)
  show ?thesis
    using decode_encode_roundtrip [OF h] h unfolding example_message_def by blast
qed

text \<open>
  As the claim is written it bounds the channel, the message type, the keys and the values,
  but not the number of fields. The payload \<open>big_payload\<close> has 65536 boolean fields with
  distinct keys of at most 65535 bytes, and \<^verbatim>\<open>struct.pack(">H", 65536)\<close> raises.
\<close>

lemma utf8_encode_replicate_a: "utf8_encode (replicate i 97) = Inr (replicate i 97)"
  by (induction i) (simp_all add: utf8_encode_cp_def)

lemma length_big_payload: "length big_payload = 65536"
  by (simp add: big_payload_def)

lemma fits_big_field: "i < 65536 \<Longrightarrow> field_fits (big_field i)"
  by (simp add: big_field_def fits_def utf8_encode_replicate_a)

lemma list_all_big_payload: "list_all field_fits big_payload"
  unfolding big_payload_def list_all_iff using fits_big_field by auto

lemma distinct_big_payload: "distinct (map fst big_payload)"
proof -
  have "x = y" if "fst (big_field x) = fst (big_field y)" for x y
    using arg_cong [OF that, of length] by (simp add: big_field_def)
  then have "inj_on (\<lambda>i. fst (big_field i)) (set [0..<65536])"
    by (blast intro: inj_onI)
  then show ?thesis
    unfolding big_payload_def by (simp add: distinct_map comp_def)
qed

lemma encode_data_too_many: "65536 \<le> length d \<Longrightarrow> encode_data d = Inl StructError"
  by (cases "d = []") (simp_all add: encode_data_def pack_H_def)

theorem roundtrip_field_count_counterexample:
  "fits 65536 (lit ''c'') \<and> fits 65536 (lit ''data'') \<and> list_all field_fits big_payload \<and>
   distinct (map fst big_payload) \<and> encode big_message = Inl StructError"
proof -
  have "fits 65536 (lit ''c'')" "fits 65536 (lit ''data'')"
    by (simp_all add: fits_def lit_def utf8_encode_cp_def)
  moreover have "encode big_message = Inl StructError"
    by (simp add: encode_def big_message_def get_default_def lit_def utf8_encode_cp_def
        pack_H_def encode_data_too_many length_big_payload)
  ultimately show ?thesis using list_all_big_payload distinct_big_payload by simp
qed


end
